theory Spec2Isabelle
  imports Complex_Main "HOL-Library.Char_ord" "HOL-Library.List_Lexorder" "HOL-Library.Product_Lexorder"
begin

section \<open>Data model\<close>

text \<open>
  A pandas cell of the dashboard's tables: a missing entry (\<open>NaN\<close>), a Python string, or a
  number. Numbers are rationals: the properties below only compare, count and average them, so
  binary rounding of \<open>float64\<close> is outside the model. Strings are lists of 8-bit
  characters.
\<close>

datatype cell = NA | Str string | Num rat

text \<open>
  The dtype of a column. \<open>Numeric\<close> stands for \<open>int64\<close>/\<open>float64\<close>, \<open>Object\<close> for a column
  of Python objects (strings, possibly mixed with numbers and \<open>NaN\<close>).
\<close>

datatype dtype = Numeric | Object

text \<open>The exceptions the modelled code can raise.\<close>

datatype error = KeyError string | TypeError | AttributeError

text \<open>
  A \<open>DataFrame\<close>: the ordered column labels, the dtype of each column, and the rows in
  order, each row holding one cell per column.
\<close>

record dataframe =
  columns :: "string list"
  dtypes :: "dtype list"
  rows :: "cell list list"

text \<open>Reading the value stored under a label in a list aligned with the labels.\<close>

fun lookup :: "'a \<Rightarrow> string list \<Rightarrow> 'a list \<Rightarrow> string \<Rightarrow> 'a" where
  "lookup d (c # cs) (v # vs) k = (if c = k then v else lookup d cs vs k)"
| "lookup d _ _ k = d"

text \<open>\<open>row[c]\<close>: the cell of a row in column \<open>c\<close>.\<close>

definition item :: "dataframe \<Rightarrow> string \<Rightarrow> cell list \<Rightarrow> cell" where
  "item df c r = lookup NA (columns df) r c"

text \<open>\<open>df[c]\<close> as the list of its values, and \<open>df[c].dtype\<close>.\<close>

definition series :: "dataframe \<Rightarrow> string \<Rightarrow> cell list" where
  "series df c = map (item df c) (rows df)"

definition dtype_of :: "dataframe \<Rightarrow> string \<Rightarrow> dtype" where
  "dtype_of df c = lookup Object (columns df) (dtypes df) c"

text \<open>\<open>df[mask]\<close>: boolean indexing keeps the rows whose mask entry is true, in order.\<close>

definition getitem_mask :: "(cell list \<Rightarrow> bool) \<Rightarrow> dataframe \<Rightarrow> dataframe" where
  "getitem_mask keep df = df\<lparr>rows := filter keep (rows df)\<rparr>"

section \<open>Numbers in \<open>float64\<close>\<close>

text \<open>
  A stored number is an \<open>int64\<close> or a \<open>float64\<close>. Where the code works in \<open>float64\<close> (a
  comparison of a column with a Python float, \<open>float(...)\<close>), an integer is converted: up
  to \<open>2^53\<close> in magnitude it is kept, beyond that it is rounded to the nearest number with a
  53-bit significand, a tie going to the even significand. \<open>nbits\<close> is the number of binary
  digits, \<open>round_half_even\<close> the rounding of a quotient to an integer, and \<open>float64\<close> the
  conversion; a \<open>float64\<close> is left as it is. Infinities are outside the model.
\<close>

fun nbits :: "nat \<Rightarrow> nat" where
  "nbits n = (if n = 0 then 0 else Suc (nbits (n div 2)))"

definition round_half_even :: "rat \<Rightarrow> int" where
  "round_half_even t =
     (let q = \<lfloor>t\<rfloor>; d = t - of_int q
      in if d < 1 / 2 then q else if 1 / 2 < d then q + 1 else if even q then q else q + 1)"

definition float64_pos :: "rat \<Rightarrow> rat" where
  "float64_pos y =
     (if y < 2 ^ 53 then y
      else let ulp = 2 ^ (nbits (nat \<lfloor>y\<rfloor>) - 53)
           in of_int (round_half_even (y / ulp)) * ulp)"

definition float64 :: "rat \<Rightarrow> rat" where
  "float64 x = (if 0 \<le> x then float64_pos x else - float64_pos (- x))"

section \<open>The filter set and \<open>apply_filters\<close>\<close>

text \<open>
  The \<open>filters\<close> dictionary of \<open>create_filters\<close>: a key that is absent is \<open>None\<close>. The
  selections are strings, as the widgets offer them for columns of strings; the range is
  the pair of the slider.
\<close>

record filters =
  brand :: "string option"
  category_main :: "string option"
  category_sub :: "string option"
  price_range :: "(rat \<times> rat) option"
  price_point :: "string option"
  color :: "string list option"
  availability :: "string option"

text \<open>
  \<open>filters.get(k) and filters[k] != 'All'\<close>: the selected value when the test succeeds.
  An absent key and the empty string are falsy.
\<close>

definition active_choice :: "string option \<Rightarrow> string option" where
  "active_choice sel =
     (case sel of None \<Rightarrow> None
      | Some v \<Rightarrow> if v = [] \<or> v = ''All'' then None else Some v)"

text \<open>
  \<open>filters.get('color') and 'All' not in filters['color']\<close>: an absent key and the empty
  list are falsy.
\<close>

definition active_multi :: "string list option \<Rightarrow> string list option" where
  "active_multi sel =
     (case sel of None \<Rightarrow> None
      | Some vs \<Rightarrow> if vs = [] \<or> ''All'' \<in> set vs then None else Some vs)"

text \<open>
  \<open>filtered_df[filtered_df[c] == v]\<close>. Indexing a column that is absent raises
  \<open>KeyError\<close>; comparing with a string never raises and is false for \<open>NaN\<close> and numbers.
\<close>

definition eq_select :: "string \<Rightarrow> string \<Rightarrow> dataframe \<Rightarrow> error + dataframe" where
  "eq_select c v df =
     (if c \<in> set (columns df) then Inr (getitem_mask (\<lambda>r. item df c r = Str v) df)
      else Inl (KeyError c))"

fun isin :: "cell \<Rightarrow> string list \<Rightarrow> bool" where
  "isin (Str s) vs = (s \<in> set vs)"
| "isin _ vs = False"

text \<open>\<open>filtered_df[filtered_df[c].isin(vs)]\<close>.\<close>

definition isin_select :: "string \<Rightarrow> string list \<Rightarrow> dataframe \<Rightarrow> error + dataframe" where
  "isin_select c vs df =
     (if c \<in> set (columns df) then Inr (getitem_mask (\<lambda>r. isin (item df c r) vs) df)
      else Inl (KeyError c))"

text \<open>
  \<open>series >= lo\<close> and \<open>series <= hi\<close>, entry by entry: a missing entry compares false,
  a string entry makes the comparison with a number raise \<open>TypeError\<close>. The bounds are
  Python floats and the comparison is made in \<open>float64\<close>: the entry is converted, and the
  bound is read through the same conversion, which leaves a float as it is.
\<close>

fun is_Str :: "cell \<Rightarrow> bool" where
  "is_Str (Str s) = True"
| "is_Str _ = False"

fun ge_cell :: "cell \<Rightarrow> rat \<Rightarrow> bool" where
  "ge_cell (Num x) lo = (float64 lo \<le> float64 x)"
| "ge_cell _ lo = False"

fun le_cell :: "cell \<Rightarrow> rat \<Rightarrow> bool" where
  "le_cell (Num x) hi = (float64 x \<le> float64 hi)"
| "le_cell _ hi = False"

text \<open>
  \<open>filtered_df[(filtered_df['price_amount'] >= min_price) &
  (filtered_df['price_amount'] <= max_price)]\<close>.
\<close>

definition range_select :: "rat \<Rightarrow> rat \<Rightarrow> dataframe \<Rightarrow> error + dataframe" where
  "range_select lo hi df =
     (if list_ex (\<lambda>r. is_Str (item df ''price_amount'' r)) (rows df) then Inl TypeError
      else Inr (getitem_mask
             (\<lambda>r. ge_cell (item df ''price_amount'' r) lo \<and> le_cell (item df ''price_amount'' r) hi)
             df))"

text \<open>The three kinds of filter step: the table passes through when the test fails.\<close>

definition single_choice :: "string \<Rightarrow> string option \<Rightarrow> dataframe \<Rightarrow> error + dataframe" where
  "single_choice c sel df =
     (case active_choice sel of None \<Rightarrow> Inr df | Some v \<Rightarrow> eq_select c v df)"

definition multi_choice :: "string \<Rightarrow> string list option \<Rightarrow> dataframe \<Rightarrow> error + dataframe" where
  "multi_choice c sel df =
     (case active_multi sel of None \<Rightarrow> Inr df | Some vs \<Rightarrow> isin_select c vs df)"

text \<open>
  \<open>if filters.get('price_range') and 'price_amount' in filtered_df.columns\<close>: a pair is
  a non-empty tuple, hence truthy whatever its bounds.
\<close>

definition range_choice :: "(rat \<times> rat) option \<Rightarrow> dataframe \<Rightarrow> error + dataframe" where
  "range_choice sel df =
     (case sel of None \<Rightarrow> Inr df
      | Some (lo, hi) \<Rightarrow>
          if ''price_amount'' \<in> set (columns df) then range_select lo hi df else Inr df)"

text \<open>Sequencing: an exception ends the function.\<close>

definition and_then :: "error + 'a \<Rightarrow> ('a \<Rightarrow> error + 'b) \<Rightarrow> error + 'b" where
  "and_then m k = (case m of Inl e \<Rightarrow> Inl e | Inr x \<Rightarrow> k x)"

text \<open>\<open>apply_filters(df, filters)\<close>, as a function of the table's value.\<close>

definition apply_filters :: "dataframe \<Rightarrow> filters \<Rightarrow> error + dataframe" where
  "apply_filters df f =
     and_then (single_choice ''brand_name'' (brand f) df) (\<lambda>d1.
     and_then (single_choice ''category_main'' (category_main f) d1) (\<lambda>d2.
     and_then (single_choice ''category_sub'' (category_sub f) d2) (\<lambda>d3.
     and_then (range_choice (price_range f) d3) (\<lambda>d4.
     and_then (single_choice ''price_point'' (price_point f) d4) (\<lambda>d5.
     and_then (multi_choice ''color'' (color f) d5) (\<lambda>d6.
     single_choice ''availability'' (availability f) d6))))))"

section \<open>The filter contract in the specification's words\<close>

text \<open>
  The specification describes the result of the Filter Engine as the rows on which every
  active constraint holds. The predicates below say so for one row: a single-choice
  constraint, the multi-choice constraint, the closed range, and their conjunction.
\<close>

definition choice_ok :: "dataframe \<Rightarrow> string \<Rightarrow> string option \<Rightarrow> cell list \<Rightarrow> bool" where
  "choice_ok df c sel r = (case active_choice sel of None \<Rightarrow> True | Some v \<Rightarrow> item df c r = Str v)"

definition multi_ok :: "dataframe \<Rightarrow> string \<Rightarrow> string list option \<Rightarrow> cell list \<Rightarrow> bool" where
  "multi_ok df c sel r = (case active_multi sel of None \<Rightarrow> True | Some vs \<Rightarrow> isin (item df c r) vs)"

definition range_ok :: "dataframe \<Rightarrow> (rat \<times> rat) option \<Rightarrow> cell list \<Rightarrow> bool" where
  "range_ok df sel r =
     (case sel of None \<Rightarrow> True
      | Some (lo, hi) \<Rightarrow>
          if ''price_amount'' \<in> set (columns df)
          then ge_cell (item df ''price_amount'' r) lo \<and> le_cell (item df ''price_amount'' r) hi
          else True)"

definition satisfies_all :: "dataframe \<Rightarrow> filters \<Rightarrow> cell list \<Rightarrow> bool" where
  "satisfies_all df f r \<longleftrightarrow>
     choice_ok df ''brand_name'' (brand f) r \<and>
     choice_ok df ''category_main'' (category_main f) r \<and>
     choice_ok df ''category_sub'' (category_sub f) r \<and>
     range_ok df (price_range f) r \<and>
     choice_ok df ''price_point'' (price_point f) r \<and>
     multi_ok df ''color'' (color f) r \<and>
     choice_ok df ''availability'' (availability f) r"

text \<open>Membership of a cell in the closed interval \<open>[lo, hi]\<close>; only a number can be a member.\<close>

fun in_closed_range :: "rat \<Rightarrow> rat \<Rightarrow> cell \<Rightarrow> bool" where
  "in_closed_range lo hi (Num x) = (lo \<le> x \<and> x \<le> hi)"
| "in_closed_range lo hi _ = False"

text \<open>
  The same membership with the number and the bounds taken in \<open>float64\<close>, and the tables and
  bounds on which the two agree: every price and both bounds are \<open>float64\<close> numbers already.
\<close>

fun in_float64_range :: "rat \<Rightarrow> rat \<Rightarrow> cell \<Rightarrow> bool" where
  "in_float64_range lo hi (Num x) = (float64 lo \<le> float64 x \<and> float64 x \<le> float64 hi)"
| "in_float64_range lo hi _ = False"

definition exact_in_float64 :: "dataframe \<Rightarrow> rat \<Rightarrow> rat \<Rightarrow> bool" where
  "exact_in_float64 df lo hi \<longleftrightarrow>
     float64 lo = lo \<and> float64 hi = hi \<and>
     list_all (\<lambda>r. case item df ''price_amount'' r of Num x \<Rightarrow> float64 x = x | _ \<Rightarrow> True) (rows df)"

text \<open>
  An active categorical filter indexes its column, so the column has to be there;
  \<open>applicable\<close> says so for the six categorical filters of a filter set.
\<close>

definition column_present :: "dataframe \<Rightarrow> string \<Rightarrow> string option \<Rightarrow> bool" where
  "column_present df c sel = (case active_choice sel of None \<Rightarrow> True | Some v \<Rightarrow> c \<in> set (columns df))"

definition multi_present :: "dataframe \<Rightarrow> string \<Rightarrow> string list option \<Rightarrow> bool" where
  "multi_present df c sel = (case active_multi sel of None \<Rightarrow> True | Some vs \<Rightarrow> c \<in> set (columns df))"

definition applicable :: "dataframe \<Rightarrow> filters \<Rightarrow> bool" where
  "applicable df f \<longleftrightarrow>
     column_present df ''brand_name'' (brand f) \<and>
     column_present df ''category_main'' (category_main f) \<and>
     column_present df ''category_sub'' (category_sub f) \<and>
     column_present df ''price_point'' (price_point f) \<and>
     multi_present df ''color'' (color f) \<and>
     column_present df ''availability'' (availability f)"

text \<open>
  The \<open>price_amount\<close> entries of the table are numbers or missing, as they are after
  \<open>pd.to_numeric(..., errors='coerce')\<close>.
\<close>

definition numeric_prices :: "dataframe \<Rightarrow> bool" where
  "numeric_prices df = (\<not> list_ex (\<lambda>r. is_Str (item df ''price_amount'' r)) (rows df))"

text \<open>
  The table of the specification's scenarios, \<open>brand_name = [A, A, B]\<close> and
  \<open>price_amount = [10, 20, 30]\<close>, and the empty filter dictionary.
\<close>

definition scenario_table :: dataframe where
  "scenario_table = \<lparr>columns = [''brand_name'', ''price_amount''], dtypes = [Object, Numeric],
     rows = [[Str ''A'', Num 10], [Str ''A'', Num 20], [Str ''B'', Num 30]]\<rparr>"

definition no_filters :: filters where
  "no_filters = \<lparr>brand = None, category_main = None, category_sub = None, price_range = None,
     price_point = None, color = None, availability = None\<rparr>"

section \<open>The price slider of \<open>create_filters\<close>\<close>

text \<open>
  The numbers of a column, in order: what \<open>min()\<close>, \<open>max()\<close> and \<open>mean()\<close> see once the
  missing entries are skipped.
\<close>

fun numbers :: "cell list \<Rightarrow> rat list" where
  "numbers [] = []"
| "numbers (Num x # cs) = x # numbers cs"
| "numbers (c # cs) = numbers cs"

text \<open>
  \<open>price_min\<close> and \<open>price_max\<close> of \<open>create_filters\<close>, the ends and the default value of the
  price slider: the least and greatest price as floats (\<open>float(df['price_amount'].min())\<close>),
  or \<open>0\<close> and \<open>1000\<close> when every entry is missing. What \<open>min()\<close> and \<open>float()\<close> yield on a
  column holding strings is left out (\<open>None\<close>), the loader leaves no string in this column.
\<close>

definition price_bounds :: "dataframe \<Rightarrow> (rat \<times> rat) option" where
  "price_bounds df =
     (if list_ex is_Str (series df ''price_amount'') then None
      else case numbers (series df ''price_amount'') of
             [] \<Rightarrow> Some (0, 1000)
           | x # xs \<Rightarrow> Some (float64 (fold min xs x), float64 (fold max xs x)))"

section \<open>Filter sets without constraint, and example tables\<close>

text \<open>
  A filter set without constraint, in the specification's words: every single-choice
  filter is \<open>"All"\<close> (or its key is absent, as \<open>create_filters\<close> leaves it when the column is
  absent), the multi-choice selection contains \<open>"All"\<close>, and the range spans every price of
  the table.
\<close>

definition all_or_absent :: "string option \<Rightarrow> bool" where
  "all_or_absent sel = (sel = None \<or> sel = Some ''All'')"

definition spans_prices :: "dataframe \<Rightarrow> (rat \<times> rat) option \<Rightarrow> bool" where
  "spans_prices df sel =
     (case sel of None \<Rightarrow> True
      | Some (lo, hi) \<Rightarrow> list_all (\<lambda>x. lo \<le> x \<and> x \<le> hi) (numbers (series df ''price_amount'')))"

definition unconstrained :: "dataframe \<Rightarrow> filters \<Rightarrow> bool" where
  "unconstrained df f \<longleftrightarrow>
     all_or_absent (brand f) \<and>
     all_or_absent (category_main f) \<and>
     all_or_absent (category_sub f) \<and>
     spans_prices df (price_range f) \<and>
     all_or_absent (price_point f) \<and>
     (case color f of None \<Rightarrow> True | Some vs \<Rightarrow> ''All'' \<in> set vs) \<and>
     all_or_absent (availability f)"

text \<open>
  A cleaned table with one missing price, and the filter set that \<open>create_filters\<close> builds
  for it when no widget is touched.
\<close>

definition gap_table :: dataframe where
  "gap_table = \<lparr>columns = [''brand_name'', ''price_amount''], dtypes = [Object, Numeric],
     rows = [[Str ''A'', Num 10], [Str ''A'', NA], [Str ''B'', Num 30]]\<rparr>"

definition gap_defaults :: filters where
  "gap_defaults = no_filters\<lparr>brand := Some ''All'', price_range := Some (10, 30)\<rparr>"

text \<open>
  Two small tables: one with a \<open>color\<close> column only, one with a \<open>price_amount\<close> column only.
\<close>

definition color_table :: dataframe where
  "color_table = \<lparr>columns = [''color''], dtypes = [Object],
     rows = [[Str ''Red''], [Str ''Blue'']]\<rparr>"


text \<open>
  A table of integer prices, one of them beyond \<open>2^53\<close>, and a table whose only column is an
  \<open>availability\<close> column of integer codes.
\<close>

definition big_price_table :: dataframe where
  "big_price_table = \<lparr>columns = [''price_amount''], dtypes = [Numeric],
     rows = [[Num 9007199254740993], [Num 1]]\<rparr>"

definition stock_code_table :: dataframe where
  "stock_code_table = \<lparr>columns = [''availability''], dtypes = [Numeric],
     rows = [[Num 1], [Num 0]]\<rparr>"

text \<open>
  A table without prices whose \<open>availability\<close> column holds strings.
\<close>

definition stocked_table :: dataframe where
  "stocked_table = \<lparr>columns = [''brand_name'', ''availability''], dtypes = [Object, Object],
     rows = [[Str ''A'', Str ''In Stock''], [Str ''B'', Str ''Sold out'']]\<rparr>"

section \<open>Filter sets as \<open>create_filters\<close> builds them\<close>



section \<open>The loader: \<open>load_and_process_data\<close>\<close>

text \<open>
  \<open>df[c] = g(df[c])\<close>, row by row: the entries under the label \<open>c\<close> are replaced, the
  others stay. The dtype recorded for the column is replaced the same way.
\<close>

fun map_entry :: "string \<Rightarrow> ('a \<Rightarrow> 'a) \<Rightarrow> string list \<Rightarrow> 'a list \<Rightarrow> 'a list" where
  "map_entry c g (n # ns) (v # vs) = (if n = c then g v else v) # map_entry c g ns vs"
| "map_entry c g _ vs = vs"

definition assign_column :: "string \<Rightarrow> (cell \<Rightarrow> cell) \<Rightarrow> dtype \<Rightarrow> dataframe \<Rightarrow> dataframe" where
  "assign_column c g t df =
     df\<lparr>dtypes := map_entry c (\<lambda>_. t) (columns df) (dtypes df),
        rows := map (map_entry c g (columns df)) (rows df)\<rparr>"

text \<open>
  \<open>pd.to_numeric(series, errors='coerce')\<close> on one entry. How a string is read as a number
  is pandas' business: \<open>parse\<close> is that reading, \<open>None\<close> when the string is not a number,
  and such an entry becomes missing.
\<close>

fun to_numeric :: "(string \<Rightarrow> rat option) \<Rightarrow> cell \<Rightarrow> cell" where
  "to_numeric parse NA = NA"
| "to_numeric parse (Num x) = Num x"
| "to_numeric parse (Str s) = (case parse s of None \<Rightarrow> NA | Some x \<Rightarrow> Num x)"

text \<open>
  \<open>series.fillna(v)\<close> on one entry.
\<close>

fun fillna :: "string \<Rightarrow> cell \<Rightarrow> cell" where
  "fillna v NA = Str v"
| "fillna v c = c"

definition categorical_cols :: "string list" where
  "categorical_cols =
     [''brand_name'', ''category_main'', ''category_sub'', ''color'', ''price_point'', ''availability'']"

text \<open>
  The two cleaning steps. The price column becomes numeric. A categorical column that held
  numbers only and no missing entry stays numeric; otherwise it is an object column after
  the fill.
\<close>

definition coerce_price :: "(string \<Rightarrow> rat option) \<Rightarrow> dataframe \<Rightarrow> dataframe" where
  "coerce_price parse df =
     (if ''price_amount'' \<in> set (columns df)
      then assign_column ''price_amount'' (to_numeric parse) Numeric df else df)"

definition fill_column :: "string \<Rightarrow> dataframe \<Rightarrow> dataframe" where
  "fill_column c df =
     (if c \<in> set (columns df)
      then assign_column c (fillna ''Unknown'')
             (if dtype_of df c = Numeric \<and> NA \<notin> set (series df c) then Numeric else Object) df
      else df)"

text \<open>
  What the modelled functions show, call by call. A metric shows a count, a mean price
  formatted as dollars (\<open>f"${avg_price:.2f}"\<close>, the mean itself here), or the text
  \<open>"N/A"\<close>. The charts and the data table are drawn by Plotly and Streamlit from the table
  they are given; \<open>Uncaught\<close> is an exception that leaves \<open>main\<close>.
\<close>

datatype metric_value = Count nat | Dollars rat | Not_available

datatype st_call =
    Title
  | Error_message string
  | Success nat
  | Info_showing nat
  | Header string
  | Metric string metric_value
  | Visualizations dataframe
  | Warning_no_data
  | Data_table dataframe
  | Info_upload
  | Expected_structure
  | Uncaught error

text \<open>
  \<open>load_and_process_data(uploaded_file)\<close>. \<open>pd.read_csv\<close> is the parsing primitive: it
  returns a table, or raises an exception whose text is \<open>msg\<close>. The result is what was shown
  and the table returned, \<open>None\<close> after an exception.
\<close>

definition load_and_process_data ::
  "('file \<Rightarrow> string + dataframe) \<Rightarrow> (string \<Rightarrow> rat option) \<Rightarrow> 'file \<Rightarrow>
     st_call list \<times> dataframe option" where
  "load_and_process_data read_csv parse uploaded_file =
     (case read_csv uploaded_file of
        Inl msg \<Rightarrow> ([Error_message (''Error loading data: '' @ msg)], None)
      | Inr df \<Rightarrow> ([], Some (fold fill_column categorical_cols (coerce_price parse df))))"

text \<open>
  Every row has one cell per column, as \<open>pd.read_csv\<close> builds its tables.
\<close>

definition rectangular :: "dataframe \<Rightarrow> bool" where
  "rectangular df = list_all (\<lambda>r. length r = length (columns df)) (rows df)"

text \<open>
  An upload with missing entries in the categorical columns and a price column of strings,
  and a reading of numbers that knows the string \<open>12\<close>.
\<close>

definition messy_upload :: dataframe where
  "messy_upload = \<lparr>columns = [''brand_name'', ''price_amount'', ''color''],
     dtypes = [Object, Object, Numeric],
     rows = [[Str ''A'', Str ''12'', NA], [NA, Str ''cheap'', NA], [Str ''B'', NA, NA]]\<rparr>"

definition parse_digits :: "string \<Rightarrow> rat option" where
  "parse_digits s = (if s = ''12'' then Some 12 else None)"

section \<open>The scalar summary and \<open>main\<close>\<close>

text \<open>
  \<open>series.mean()\<close> and \<open>series.nunique()\<close>: missing entries are skipped; the mean of no
  number is \<open>NaN\<close>, here \<open>None\<close>.
\<close>

definition mean :: "cell list \<Rightarrow> rat option" where
  "mean cs = (case numbers cs of [] \<Rightarrow> None
              | x # xs \<Rightarrow> Some (sum_list (x # xs) / of_nat (length (x # xs))))"

definition nunique :: "cell list \<Rightarrow> nat" where
  "nunique cs = length (remdups (filter (\<lambda>c. c \<noteq> NA) cs))"

text \<open>
  \<open>series.str.contains('in stock', case=False, na=False)\<close> on one entry: the pattern has no
  special character, so the match is a substring test on the lower-cased string (ASCII
  letters). An entry that is not a string does not match.
\<close>

definition lower_char :: "char \<Rightarrow> char" where
  "lower_char c =
     (case map_of (zip ''ABCDEFGHIJKLMNOPQRSTUVWXYZ'' ''abcdefghijklmnopqrstuvwxyz'') c of
        None \<Rightarrow> c | Some l \<Rightarrow> l)"

fun starts_with :: "string \<Rightarrow> string \<Rightarrow> bool" where
  "starts_with [] s = True"
| "starts_with (p # ps) [] = False"
| "starts_with (p # ps) (c # cs) = (p = c \<and> starts_with ps cs)"

fun str_contains :: "string \<Rightarrow> string \<Rightarrow> bool" where
  "str_contains p [] = (p = [])"
| "str_contains p (c # cs) = (starts_with p (c # cs) \<or> str_contains p cs)"

fun in_stock :: "cell \<Rightarrow> bool" where
  "in_stock (Str s) = str_contains ''in stock'' (map lower_char s)"
| "in_stock _ = False"

text \<open>
  \<open>series.str\<close>: pandas refuses the accessor with \<open>AttributeError\<close> unless the values are
  strings. A numeric column is refused whatever it holds; an object column is judged by its
  values with the missing ones skipped, and refused when there is a value and every value is
  a number.
\<close>

definition str_accessor_raises :: "dataframe \<Rightarrow> string \<Rightarrow> bool" where
  "str_accessor_raises df c \<longleftrightarrow>
     dtype_of df c = Numeric \<or>
     (numbers (series df c) \<noteq> [] \<and> \<not> list_ex is_Str (series df c))"

text \<open>
  \<open>create_overview_metrics(df)\<close>: the metrics shown, in order, and the exception raised, if
  any. \<open>mean()\<close> raises \<open>TypeError\<close> on a column holding strings.
\<close>

definition create_overview_metrics :: "dataframe \<Rightarrow> st_call list \<times> error option" where
  "create_overview_metrics df =
     (let col1 = [Metric ''Total Products'' (Count (length (rows df)))];
          col2 = (if ''brand_name'' \<in> set (columns df)
                  then [Metric ''Unique Brands'' (Count (nunique (series df ''brand_name'')))]
                  else [])
      in if ''price_amount'' \<in> set (columns df) \<and> list_ex is_Str (series df ''price_amount'')
         then (col1 @ col2, Some TypeError)
         else
           let col3 = (if ''price_amount'' \<in> set (columns df)
                       then [Metric ''Average Price''
                               (case mean (series df ''price_amount'') of
                                  None \<Rightarrow> Not_available | Some avg_price \<Rightarrow> Dollars avg_price)]
                       else [])
           in if ''availability'' \<in> set (columns df) \<and> str_accessor_raises df ''availability''
              then (col1 @ col2 @ col3, Some AttributeError)
              else (col1 @ col2 @ col3 @
                      (if ''availability'' \<in> set (columns df)
                       then [Metric ''In Stock''
                               (Count (length (filter in_stock (series df ''availability''))))]
                       else []),
                    None))"

text \<open>
  \<open>main()\<close>. The sidebar widgets of \<open>create_filters\<close> answer with the user's selections:
  \<open>create_filters\<close> is a parameter here, and so is the uploaded file (\<open>None\<close> when nothing was
  uploaded).
\<close>

definition main ::
  "('file \<Rightarrow> string + dataframe) \<Rightarrow> (string \<Rightarrow> rat option) \<Rightarrow>
     (dataframe \<Rightarrow> error + filters) \<Rightarrow> 'file option \<Rightarrow> st_call list" where
  "main read_csv parse create_filters uploaded_file =
     Title #
     (case uploaded_file of
        None \<Rightarrow> [Info_upload, Expected_structure]
      | Some file \<Rightarrow>
          (case load_and_process_data read_csv parse file of
             (shown, None) \<Rightarrow> shown
           | (shown, Some df) \<Rightarrow>
               shown @ Success (length (rows df)) #
               (case create_filters df of
                  Inl e \<Rightarrow> [Uncaught e]
                | Inr filters \<Rightarrow>
                    (case apply_filters df filters of
                       Inl e \<Rightarrow> [Uncaught e]
                     | Inr filtered_df \<Rightarrow>
                         (if length (rows filtered_df) \<noteq> length (rows df)
                          then [Info_showing (length (rows filtered_df))] else []) @
                         Header ''Overview'' #
                         (case create_overview_metrics filtered_df of
                            (metrics, Some e) \<Rightarrow> metrics @ [Uncaught e]
                          | (metrics, None) \<Rightarrow>
                              metrics @ Header ''Analytics'' #
                              (if 0 < length (rows filtered_df)
                               then [Visualizations filtered_df] else [Warning_no_data]) @
                              [Data_table filtered_df])))))"

text \<open>
  A table whose prices are all missing.
\<close>

definition unpriced_table :: dataframe where
  "unpriced_table = \<lparr>columns = [''brand_name'', ''price_amount''], dtypes = [Object, Numeric],
     rows = [[Str ''A'', NA], [Str ''B'', NA]]\<rparr>"

section \<open>The cross-tabulation of \<open>create_visualizations\<close>\<close>

text \<open>
  The order in which pandas sorts the labels of a grouping: numbers by value, then strings
  by code point. Missing labels are dropped before the sort.
\<close>

fun label_key :: "cell \<Rightarrow> nat \<times> rat \<times> string" where
  "label_key (Num x) = (0, x, [])"
| "label_key (Str s) = (1, 0, s)"
| "label_key NA = (2, 0, [])"

text \<open>
  The table \<open>pd.crosstab(a, b)\<close> returns: the sorted distinct values of \<open>a\<close> as row labels,
  those of \<open>b\<close> as column labels, and for every pair of labels the number of rows that
  carry it. Rows in which either value is missing are not counted.
\<close>

record crosstab_table =
  index_labels :: "cell list"
  column_labels :: "cell list"
  counts :: "nat list list"

definition crosstab :: "cell list \<Rightarrow> cell list \<Rightarrow> crosstab_table" where
  "crosstab xs ys =
     (let pairs = filter (\<lambda>(a, b). a \<noteq> NA \<and> b \<noteq> NA) (zip xs ys);
          idx = sort_key label_key (remdups (map fst pairs));
          cols = sort_key label_key (remdups (map snd pairs))
      in \<lparr>index_labels = idx, column_labels = cols,
          counts = map (\<lambda>a. map (\<lambda>b. count_list pairs (a, b)) cols) idx\<rparr>)"

text \<open>
  \<open>category_price_data\<close> of \<open>create_visualizations\<close>, computed when both columns are present;
  \<open>cell_total\<close> is the sum over all cells of the table.
\<close>

definition category_price_data :: "dataframe \<Rightarrow> crosstab_table option" where
  "category_price_data df =
     (if ''category_main'' \<in> set (columns df) \<and> ''price_point'' \<in> set (columns df)
      then Some (crosstab (series df ''category_main'') (series df ''price_point''))
      else None)"

definition cell_total :: "crosstab_table \<Rightarrow> nat" where
  "cell_total ct = sum_list (map sum_list (counts ct))"

text \<open>
  A table with the two columns of the cross-tabulation and one missing price point.
\<close>

definition catalog_table :: dataframe where
  "catalog_table = \<lparr>columns = [''category_main'', ''price_point''], dtypes = [Object, Object],
     rows = [[Str ''Shoes'', Str ''Luxury''], [Str ''Bags'', Str ''Budget''],
             [Str ''Shoes'', NA], [Str ''Shoes'', Str ''Luxury'']]\<rparr>"

section \<open>\<open>apply_filters\<close> on objects\<close>

text \<open>
  Python variables hold references to \<open>DataFrame\<close> objects. The heap maps every reference
  to the table stored there; the references below \<open>next_ref\<close> are the objects that exist.
\<close>

type_synonym ref = nat

record heap =
  objects :: "ref \<Rightarrow> dataframe"
  next_ref :: ref

text \<open>
  Creating an object. \<open>df.copy()\<close> creates one with the value of \<open>df\<close>;
  \<open>filtered_df[mask]\<close> creates one with the selected rows, unless computing the mask raises.
  Neither writes to an object that exists.
\<close>

definition alloc :: "dataframe \<Rightarrow> heap \<Rightarrow> (error + ref) \<times> heap" where
  "alloc d h = (Inr (next_ref h), h\<lparr>objects := (objects h)(next_ref h := d), next_ref := Suc (next_ref h)\<rparr>)"

definition copy_h :: "ref \<Rightarrow> heap \<Rightarrow> (error + ref) \<times> heap" where
  "copy_h p h = alloc (objects h p) h"

definition index_h :: "(dataframe \<Rightarrow> error + dataframe) \<Rightarrow> ref \<Rightarrow> heap \<Rightarrow> (error + ref) \<times> heap" where
  "index_h select p h =
     (case select (objects h p) of Inl e \<Rightarrow> (Inl e, h) | Inr d \<Rightarrow> alloc d h)"

text \<open>
  The filter steps on references: when the test of the \<open>if\<close> fails, the variable
  \<open>filtered_df\<close> keeps its reference; otherwise it is bound to the new object.
\<close>

definition single_choice_h :: "string \<Rightarrow> string option \<Rightarrow> ref \<Rightarrow> heap \<Rightarrow> (error + ref) \<times> heap" where
  "single_choice_h c sel p h =
     (case active_choice sel of None \<Rightarrow> (Inr p, h) | Some v \<Rightarrow> index_h (eq_select c v) p h)"

definition multi_choice_h :: "string \<Rightarrow> string list option \<Rightarrow> ref \<Rightarrow> heap \<Rightarrow> (error + ref) \<times> heap" where
  "multi_choice_h c sel p h =
     (case active_multi sel of None \<Rightarrow> (Inr p, h) | Some vs \<Rightarrow> index_h (isin_select c vs) p h)"

definition range_choice_h :: "(rat \<times> rat) option \<Rightarrow> ref \<Rightarrow> heap \<Rightarrow> (error + ref) \<times> heap" where
  "range_choice_h sel p h =
     (case sel of None \<Rightarrow> (Inr p, h)
      | Some (lo, hi) \<Rightarrow>
          if ''price_amount'' \<in> set (columns (objects h p)) then index_h (range_select lo hi) p h
          else (Inr p, h))"

text \<open>
  Sequencing with the heap threaded through, and \<open>apply_filters(df, filters)\<close> on the
  reference \<open>df\<close>: the result is the reference returned, or the exception, and the heap
  after the call.
\<close>

definition bind_h ::
  "(heap \<Rightarrow> (error + ref) \<times> heap) \<Rightarrow> (ref \<Rightarrow> heap \<Rightarrow> (error + ref) \<times> heap) \<Rightarrow>
     heap \<Rightarrow> (error + ref) \<times> heap" where
  "bind_h m k h = (case m h of (Inl e, h') \<Rightarrow> (Inl e, h') | (Inr p, h') \<Rightarrow> k p h')"

definition apply_filters_h :: "ref \<Rightarrow> filters \<Rightarrow> heap \<Rightarrow> (error + ref) \<times> heap" where
  "apply_filters_h df f =
     bind_h (copy_h df) (\<lambda>v0.
     bind_h (single_choice_h ''brand_name'' (brand f) v0) (\<lambda>v1.
     bind_h (single_choice_h ''category_main'' (category_main f) v1) (\<lambda>v2.
     bind_h (single_choice_h ''category_sub'' (category_sub f) v2) (\<lambda>v3.
     bind_h (range_choice_h (price_range f) v3) (\<lambda>v4.
     bind_h (single_choice_h ''price_point'' (price_point f) v4) (\<lambda>v5.
     bind_h (multi_choice_h ''color'' (color f) v5) (\<lambda>v6.
     single_choice_h ''availability'' (availability f) v6)))))))"

text \<open>
  A later heap extends an earlier one when the objects of the earlier heap are still there,
  unchanged. A step on references refines a step on values when, from an existing object,
  it extends the heap and returns a reference to the value step's result, or raises the same
  exception.
\<close>

definition extends :: "heap \<Rightarrow> heap \<Rightarrow> bool" where
  "extends h h' \<longleftrightarrow> next_ref h \<le> next_ref h' \<and> (\<forall>p < next_ref h. objects h' p = objects h p)"

definition refines ::
  "(ref \<Rightarrow> heap \<Rightarrow> (error + ref) \<times> heap) \<Rightarrow> (dataframe \<Rightarrow> error + dataframe) \<Rightarrow> bool" where
  "refines m s \<longleftrightarrow>
     (\<forall>p h r h'. p < next_ref h \<and> m p h = (r, h') \<longrightarrow>
        extends h h' \<and>
        (case r of Inl e \<Rightarrow> s (objects h p) = Inl e
         | Inr q \<Rightarrow> p \<le> q \<and> q < next_ref h' \<and> s (objects h p) = Inr (objects h' q)))"

text \<open>
  A heap holding the scenario table at reference \<open>0\<close>.
\<close>

definition empty_frame :: dataframe where
  "empty_frame = \<lparr>columns = [], dtypes = [], rows = []\<rparr>"

definition one_table_heap :: heap where
  "one_table_heap = \<lparr>objects = (\<lambda>p. empty_frame)(0 := scenario_table), next_ref = 1\<rparr>"

section \<open>Properties of the conversion to \<open>float64\<close>\<close>

declare nbits.simps [simp del]

lemma nbits_bounds: "0 < n \<Longrightarrow> 2 ^ (nbits n - 1) \<le> n \<and> n < 2 ^ nbits n"
proof (induction n rule: nbits.induct)
  case (1 n)
  show ?case
  proof (cases "n div 2 = 0")
    case True
    with 1(2) have "n = 1" by (simp add: div_eq_0_iff) 
    then show ?thesis by (simp add: nbits.simps)
  next
    case False
    then have ih: "2 ^ (nbits (n div 2) - 1) \<le> n div 2" "n div 2 < 2 ^ nbits (n div 2)"
      using 1 by simp_all
    have pos: "0 < nbits (n div 2)" using False by (simp add: nbits.simps [of "n div 2"])
    have n: "nbits n = Suc (nbits (n div 2))" using 1(2) by (simp add: nbits.simps [of n])
    have "2 ^ (nbits n - 1) = 2 * 2 ^ (nbits (n div 2) - 1)"
      using pos n by (cases "nbits (n div 2)") simp_all
    also have "\<dots> \<le> 2 * (n div 2)" using ih(1) by simp
    also have "\<dots> \<le> n" by simp
    finally have a: "2 ^ (nbits n - 1) \<le> n" .
    have "n < 2 * (n div 2) + 2" by presburger
    also have "\<dots> \<le> 2 * 2 ^ nbits (n div 2)" using ih(2) by simp
    finally have b: "n < 2 ^ nbits n" by (simp add: n)
    from a b show ?thesis ..
  qed
qed

lemma nbits_mono: "m \<le> n \<Longrightarrow> nbits m \<le> nbits n"
proof (cases "m = 0")
  case True
  then show ?thesis by (simp add: nbits.simps [of 0])
next
  case False
  assume mn: "m \<le> n"
  show ?thesis
  proof (rule ccontr)
    assume "\<not> nbits m \<le> nbits n"
    then have "nbits n \<le> nbits m - 1" by simp
    then have "(2::nat) ^ nbits n \<le> 2 ^ (nbits m - 1)" by (simp add: power_increasing)
    also have "\<dots> \<le> m" using nbits_bounds [of m] False by simp
    finally have "2 ^ nbits n \<le> n" using mn by simp
    moreover have "n < 2 ^ nbits n" using nbits_bounds [of n] False mn by simp
    ultimately show False by simp
  qed
qed

lemma round_half_even_floor: "\<lfloor>t\<rfloor> \<le> round_half_even t \<and> round_half_even t \<le> \<lfloor>t\<rfloor> + 1"
  by (simp add: round_half_even_def Let_def)

lemma round_half_even_of_int [simp]: "round_half_even (of_int k) = k"
  by (simp add: round_half_even_def)

lemma round_half_even_numeral [simp]: "round_half_even (numeral k) = numeral k"
  using round_half_even_of_int [of "numeral k"] by simp

lemma floor_divide_numeral:
  "\<lfloor>(numeral a :: rat) / numeral b\<rfloor> = numeral a div numeral b"
  using floor_divide_of_int_eq [of "numeral a" "numeral b", where ?'a = rat] by simp

lemma round_half_even_mono:
  assumes "s \<le> t"
  shows "round_half_even s \<le> round_half_even t"
proof (cases "\<lfloor>s\<rfloor> = \<lfloor>t\<rfloor>")
  case True
  then have "s - of_int \<lfloor>s\<rfloor> \<le> t - of_int \<lfloor>t\<rfloor>" using assms by simp
  then show ?thesis using True by (auto simp: round_half_even_def Let_def)
next
  case False
  then have "\<lfloor>s\<rfloor> + 1 \<le> \<lfloor>t\<rfloor>" using floor_mono [OF assms] by simp
  with round_half_even_floor [of s] round_half_even_floor [of t] show ?thesis by linarith
qed


lemma ulp_bounds:
  assumes "2 ^ 53 \<le> (y::rat)"
  defines "e \<equiv> nbits (nat \<lfloor>y\<rfloor>) - 53"
  shows "1 \<le> e" and "2 ^ 52 * 2 ^ e \<le> y" and "y < 2 ^ 53 * 2 ^ e"
proof -
  let ?n = "nat \<lfloor>y\<rfloor>"
  have fl: "(2::int) ^ 53 \<le> \<lfloor>y\<rfloor>" using assms(1) by (simp add: le_floor_iff)
  then have n: "2 ^ 53 \<le> ?n" by (simp add: le_nat_iff)
  have "(0::nat) < 2 ^ 53" by simp
  then have pos: "0 < ?n" using n by (rule less_le_trans)
  from nbits_bounds [OF pos]
  have b1: "2 ^ (nbits ?n - 1) \<le> ?n" and b2: "?n < 2 ^ nbits ?n" by blast+
  have "(2::nat) ^ 53 < 2 ^ nbits ?n" using n b2 by (rule le_less_trans)
  then have k: "53 < nbits ?n" by (rule power_less_imp_less_exp [rotated]) simp
  then show "1 \<le> e" by (simp add: e_def)
  have k1: "nbits ?n - 1 = 52 + e" and k2: "nbits ?n = 53 + e" using k by (simp_all add: e_def)
  have nonneg: "0 \<le> \<lfloor>y\<rfloor>" using fl by simp
  then have eq: "(of_nat ?n :: rat) = of_int \<lfloor>y\<rfloor>" by simp
  have yn: "of_nat ?n \<le> y" unfolding eq by simp
  have "(2::nat) ^ (52 + e) \<le> ?n" using b1 unfolding k1 .
  then have "of_nat ((2::nat) ^ (52 + e)) \<le> (of_nat ?n :: rat)" by (rule of_nat_mono)
  then have "(2::rat) ^ (52 + e) \<le> of_nat ?n" by simp
  then show "2 ^ 52 * 2 ^ e \<le> y" using yn by (simp add: power_add)
  have "?n < 2 ^ (53 + e)" using b2 unfolding k2 .
  then have "Suc ?n \<le> 2 ^ (53 + e)" by (simp only: Suc_le_eq)
  then have "of_nat (Suc ?n) \<le> (of_nat ((2::nat) ^ (53 + e)) :: rat)" by (rule of_nat_mono)
  then have le: "of_nat (Suc ?n) \<le> (2::rat) ^ (53 + e)" by simp
  have "y < of_int \<lfloor>y\<rfloor> + 1" by linarith
  also have "\<dots> = (of_nat (Suc ?n) :: rat)" unfolding of_nat_Suc eq by simp
  finally have "y < of_nat (Suc ?n)" .
  with le show "y < 2 ^ 53 * 2 ^ e" by (simp add: power_add)
qed

lemma float64_pos_bounds:
  assumes "2 ^ 53 \<le> (y::rat)"
  defines "e \<equiv> nbits (nat \<lfloor>y\<rfloor>) - 53"
  shows "2 ^ 52 * 2 ^ e \<le> float64_pos y" and "float64_pos y \<le> 2 ^ 53 * 2 ^ e"
proof -
  note u = ulp_bounds [OF assms(1), folded e_def]
  have p: "(0::rat) < 2 ^ e" by simp
  have f: "float64_pos y = of_int (round_half_even (y / 2 ^ e)) * 2 ^ e"
    using assms(1) by (simp add: float64_pos_def e_def Let_def)
  have "of_int (2 ^ 52) \<le> y / 2 ^ e" using u(2) p by (simp add: pos_le_divide_eq)
  from round_half_even_mono [OF this] have "2 ^ 52 \<le> round_half_even (y / 2 ^ e)" by simp
  then have "(of_int (2 ^ 52) :: rat) \<le> of_int (round_half_even (y / 2 ^ e))"
    by (simp only: of_int_le_iff)
  then show "2 ^ 52 * 2 ^ e \<le> float64_pos y" unfolding f using p by simp
  have "y / 2 ^ e \<le> of_int (2 ^ 53)" using u(3) p by (simp add: pos_divide_le_eq)
  from round_half_even_mono [OF this] have "round_half_even (y / 2 ^ e) \<le> 2 ^ 53" by simp
  then have "(of_int (round_half_even (y / 2 ^ e)) :: rat) \<le> of_int (2 ^ 53)"
    by (simp only: of_int_le_iff)
  then show "float64_pos y \<le> 2 ^ 53 * 2 ^ e" unfolding f using p by simp
qed

lemma float64_pos_mono:
  assumes "a \<le> b"
  shows "float64_pos a \<le> float64_pos b"
proof (cases "b < 2 ^ 53")
  case True
  then show ?thesis using assms by (simp add: float64_pos_def)
next
  case b: False
  define eb where "eb = nbits (nat \<lfloor>b\<rfloor>) - 53"
  have b53: "2 ^ 53 \<le> b" using b by simp
  note ub = ulp_bounds [OF b53, folded eb_def]
  note fb = float64_pos_bounds [OF b53, folded eb_def]
  show ?thesis
  proof (cases "a < 2 ^ 53")
    case True
    have "(2::rat) ^ 53 = 2 ^ 52 * 2 ^ 1" by simp
    also have "\<dots> \<le> 2 ^ 52 * 2 ^ eb"
      using ub(1) by (intro mult_left_mono power_increasing) simp_all
    finally have "2 ^ 53 \<le> float64_pos b" using fb(1) by simp
    with True show ?thesis by (simp add: float64_pos_def)
  next
    case a: False
    define ea where "ea = nbits (nat \<lfloor>a\<rfloor>) - 53"
    have a53: "2 ^ 53 \<le> a" using a by simp
    note ua = ulp_bounds [OF a53, folded ea_def]
    note fa = float64_pos_bounds [OF a53, folded ea_def]
    have "nat \<lfloor>a\<rfloor> \<le> nat \<lfloor>b\<rfloor>" using assms by (simp add: floor_mono nat_mono)
    then have le: "ea \<le> eb" unfolding ea_def eb_def by (intro diff_le_mono nbits_mono)
    show ?thesis
    proof (cases "ea = eb")
      case True
      have "a / 2 ^ eb \<le> b / 2 ^ eb" using assms by (simp add: divide_right_mono)
      from round_half_even_mono [OF this]
      have "(of_int (round_half_even (a / 2 ^ eb)) :: rat) \<le> of_int (round_half_even (b / 2 ^ eb))"
        by (simp only: of_int_le_iff)
      then have "of_int (round_half_even (a / 2 ^ eb)) * 2 ^ eb \<le>
                 (of_int (round_half_even (b / 2 ^ eb)) * 2 ^ eb :: rat)"
        by (simp add: mult_right_mono)
      then show ?thesis
        using a53 b53 True by (simp add: float64_pos_def ea_def eb_def Let_def)
    next
      case False
      then have "Suc ea \<le> eb" using le by simp
      then have "(2::rat) ^ Suc ea \<le> 2 ^ eb" by (intro power_increasing) simp_all
      then have "(2::rat) ^ 53 * 2 ^ ea \<le> 2 ^ 52 * 2 ^ eb" by simp
      with fa(2) fb(1) show ?thesis by linarith
    qed
  qed
qed

lemma float64_pos_nonneg: "0 \<le> y \<Longrightarrow> 0 \<le> float64_pos y"
  using float64_pos_mono [of 0 y] by (simp add: float64_pos_def)

lemma float64_mono: "x \<le> y \<Longrightarrow> float64 x \<le> float64 y"
proof -
  assume xy: "x \<le> y"
  consider "0 \<le> x" | "y < 0" | "x < 0" "0 \<le> y" by linarith
  then show ?thesis
  proof cases
    case 1
    then show ?thesis using xy by (simp add: float64_def float64_pos_mono)
  next
    case 2
    then show ?thesis using xy by (simp add: float64_def float64_pos_mono)
  next
    case 3
    have "0 \<le> float64_pos (- x)" "0 \<le> float64_pos y"
      using 3 by (simp_all add: float64_pos_nonneg)
    then show ?thesis using 3 by (simp add: float64_def)
  qed
qed

lemma float64_small: "\<bar>x\<bar> < 2 ^ 53 \<Longrightarrow> float64 x = x"
  by (auto simp: float64_def float64_pos_def)

lemmas eval_float64 =
  float64_def float64_pos_def nbits.simps round_half_even_def Let_def floor_divide_numeral

section \<open>Properties of the Filter Engine\<close>

lemma getitem_mask_simps [simp]:
  "columns (getitem_mask p df) = columns df"
  "dtypes (getitem_mask p df) = dtypes df"
  "rows (getitem_mask p df) = filter p (rows df)"
  by (simp_all add: getitem_mask_def)

lemma getitem_mask_twice:
  "getitem_mask q (getitem_mask p df) = getitem_mask (\<lambda>r. p r \<and> q r) df"
  by (simp add: getitem_mask_def)

lemma getitem_mask_True [simp]: "getitem_mask (\<lambda>r. True) df = df"
  by (simp add: getitem_mask_def)

lemma item_getitem_mask [simp]: "item (getitem_mask p df) c r = item df c r"
  by (simp add: item_def)

lemma choice_ok_getitem_mask [simp]: "choice_ok (getitem_mask p df) = choice_ok df"
  by (simp add: choice_ok_def fun_eq_iff split: option.splits)

lemma multi_ok_getitem_mask [simp]: "multi_ok (getitem_mask p df) = multi_ok df"
  by (simp add: multi_ok_def fun_eq_iff split: option.splits)

lemma range_ok_getitem_mask [simp]: "range_ok (getitem_mask p df) = range_ok df"
  by (simp add: range_ok_def fun_eq_iff split: option.splits)

lemma single_choice_Inr:
  "single_choice c sel df = Inr d \<Longrightarrow> d = getitem_mask (choice_ok df c sel) df"
  by (auto simp: single_choice_def choice_ok_def eq_select_def fun_eq_iff
      intro!: arg_cong [where f = "\<lambda>p. getitem_mask p df"] split: option.splits if_splits)

lemma multi_choice_Inr:
  "multi_choice c sel df = Inr d \<Longrightarrow> d = getitem_mask (multi_ok df c sel) df"
  by (auto simp: multi_choice_def multi_ok_def isin_select_def fun_eq_iff
      intro!: arg_cong [where f = "\<lambda>p. getitem_mask p df"] split: option.splits if_splits)

lemma range_choice_Inr:
  "range_choice sel df = Inr d \<Longrightarrow> d = getitem_mask (range_ok df sel) df"
  by (auto simp: range_choice_def range_ok_def range_select_def fun_eq_iff
      intro!: arg_cong [where f = "\<lambda>p. getitem_mask p df"] split: option.splits if_splits)

lemma and_then_Inr: "and_then m k = Inr y \<Longrightarrow> \<exists>x. m = Inr x \<and> k x = Inr y"
  by (cases m) (simp_all add: and_then_def)

lemma apply_filters_Inr:
  assumes "apply_filters df f = Inr out"
  shows "out = getitem_mask (satisfies_all df f) df"
proof -
  from assms obtain d1 d2 d3 d4 d5 d6 where
    s1: "single_choice ''brand_name'' (brand f) df = Inr d1" and
    s2: "single_choice ''category_main'' (category_main f) d1 = Inr d2" and
    s3: "single_choice ''category_sub'' (category_sub f) d2 = Inr d3" and
    s4: "range_choice (price_range f) d3 = Inr d4" and
    s5: "single_choice ''price_point'' (price_point f) d4 = Inr d5" and
    s6: "multi_choice ''color'' (color f) d5 = Inr d6" and
    s7: "single_choice ''availability'' (availability f) d6 = Inr out"
    unfolding apply_filters_def by (blast dest: and_then_Inr)
  note e1 = single_choice_Inr [OF s1]
  note e2 = single_choice_Inr [OF s2]
  note e3 = single_choice_Inr [OF s3]
  note e4 = range_choice_Inr [OF s4]
  note e5 = single_choice_Inr [OF s5]
  note e6 = multi_choice_Inr [OF s6]
  note e7 = single_choice_Inr [OF s7]
  have "out = getitem_mask (\<lambda>r. (((((choice_ok df ''brand_name'' (brand f) r \<and>
     choice_ok df ''category_main'' (category_main f) r) \<and>
     choice_ok df ''category_sub'' (category_sub f) r) \<and>
     range_ok df (price_range f) r) \<and>
     choice_ok df ''price_point'' (price_point f) r) \<and>
     multi_ok df ''color'' (color f) r) \<and>
     choice_ok df ''availability'' (availability f) r) df"
    unfolding e7 e6 e5 e4 e3 e2 e1 by (simp add: getitem_mask_twice)
  also have "\<dots> = getitem_mask (satisfies_all df f) df"
    by (rule arg_cong [where f = "\<lambda>p. getitem_mask p df"]) (auto simp: satisfies_all_def fun_eq_iff)
  finally show ?thesis .
qed

lemma single_choice_present:
  "column_present df c sel \<Longrightarrow> single_choice c sel df = Inr (getitem_mask (choice_ok df c sel) df)"
  by (auto simp: column_present_def single_choice_def choice_ok_def eq_select_def fun_eq_iff
      intro!: arg_cong [where f = "\<lambda>p. getitem_mask p df"] split: option.splits)

lemma multi_choice_present:
  "multi_present df c sel \<Longrightarrow> multi_choice c sel df = Inr (getitem_mask (multi_ok df c sel) df)"
  by (auto simp: multi_present_def multi_choice_def multi_ok_def isin_select_def fun_eq_iff
      intro!: arg_cong [where f = "\<lambda>p. getitem_mask p df"] split: option.splits)

lemma range_choice_numeric:
  "numeric_prices df \<Longrightarrow> range_choice sel df = Inr (getitem_mask (range_ok df sel) df)"
  by (auto simp: numeric_prices_def range_choice_def range_ok_def range_select_def fun_eq_iff
      intro!: arg_cong [where f = "\<lambda>p. getitem_mask p df"] split: option.splits)

lemma column_present_getitem_mask [simp]:
  "column_present (getitem_mask p df) c sel = column_present df c sel"
  by (simp add: column_present_def split: option.splits)

lemma multi_present_getitem_mask [simp]:
  "multi_present (getitem_mask p df) c sel = multi_present df c sel"
  by (simp add: multi_present_def split: option.splits)

lemma numeric_prices_getitem_mask:
  "numeric_prices df \<Longrightarrow> numeric_prices (getitem_mask p df)"
  by (auto simp: numeric_prices_def list_ex_iff)

lemma apply_filters_succeeds:
  assumes "applicable df f" and "numeric_prices df"
  shows "\<exists>out. apply_filters df f = Inr out"
  using assms
  by (simp add: apply_filters_def and_then_def applicable_def single_choice_present
      multi_choice_present range_choice_numeric numeric_prices_getitem_mask)

lemma range_ok_Some:
  "c \<in> set (columns df) \<Longrightarrow> c = ''price_amount'' \<Longrightarrow>
   range_ok df (Some (lo, hi)) r = in_float64_range lo hi (item df c r)"
  by (cases "item df ''price_amount'' r") (simp_all add: range_ok_def)

lemma exact_in_float64_row:
  assumes "exact_in_float64 df lo hi" and "r \<in> set (rows df)"
  shows "in_float64_range lo hi (item df ''price_amount'' r) =
         in_closed_range lo hi (item df ''price_amount'' r)"
proof (cases "item df ''price_amount'' r")
  case (Num x)
  then have "float64 x = x" using assms by (auto simp: exact_in_float64_def list_all_iff)
  with assms(1) Num show ?thesis by (simp add: exact_in_float64_def)
qed simp_all

lemma range_filter_scenario:
  "apply_filters scenario_table (no_filters\<lparr>price_range := Some (15, 30)\<rparr>) =
     Inr (scenario_table\<lparr>rows := [[Str ''A'', Num 20], [Str ''B'', Num 30]]\<rparr>)"
  by (simp add: apply_filters_def and_then_def single_choice_def multi_choice_def
      range_choice_def range_select_def active_choice_def active_multi_def
      scenario_table_def no_filters_def getitem_mask_def item_def float64_def float64_pos_def)

text \<open>
  Claim C3, as amended. With a range filter \<open>(lo, hi)\<close> in the filter set and a
  \<open>price_amount\<close> column in the table, the rows that \<open>apply_filters\<close> returns are exactly the
  rows of the input, in order, whose \<open>price_amount\<close> is a number that, converted to \<open>float64\<close>
  for the comparison, satisfies \<open>lo \<le> price_amount \<le> hi\<close> (both bounds included) and which
  pass the other filters of the set. When the bounds and every price are \<open>float64\<close> numbers
  already, these are exactly the rows with \<open>lo \<le> price_amount \<le> hi\<close>. The call does return a
  table when the price entries are numeric and the columns of the active categorical filters
  exist. On the scenario table, the range \<open>(15, 30)\<close> yields the rows with prices 20 and 30.
\<close>

theorem range_filter_inclusive:
  assumes "price_range f = Some (lo, hi)" and "''price_amount'' \<in> set (columns df)"
  shows "(\<forall>out. apply_filters df f = Inr out \<longrightarrow>
            columns out = columns df \<and>
            rows out = filter (\<lambda>r. in_float64_range lo hi (item df ''price_amount'' r) \<and>
                                   satisfies_all df (f\<lparr>price_range := None\<rparr>) r) (rows df)) \<and>
         (exact_in_float64 df lo hi \<longrightarrow>
            (\<forall>out. apply_filters df f = Inr out \<longrightarrow>
               rows out = filter (\<lambda>r. in_closed_range lo hi (item df ''price_amount'' r) \<and>
                                      satisfies_all df (f\<lparr>price_range := None\<rparr>) r) (rows df))) \<and>
         (applicable df f \<and> numeric_prices df \<longrightarrow> (\<exists>out. apply_filters df f = Inr out)) \<and>
         apply_filters scenario_table (no_filters\<lparr>price_range := Some (15, 30)\<rparr>) =
           Inr (scenario_table\<lparr>rows := [[Str ''A'', Num 20], [Str ''B'', Num 30]]\<rparr>)"
proof -
  have sat: "satisfies_all df f = (\<lambda>r. in_float64_range lo hi (item df ''price_amount'' r) \<and>
                                   satisfies_all df (f\<lparr>price_range := None\<rparr>) r)"
    using assms by (auto simp: satisfies_all_def fun_eq_iff range_ok_Some) (simp_all add: range_ok_def)
  have 1: "columns out = columns df \<and>
           rows out = filter (\<lambda>r. in_float64_range lo hi (item df ''price_amount'' r) \<and>
                                   satisfies_all df (f\<lparr>price_range := None\<rparr>) r) (rows df)"
    if "apply_filters df f = Inr out" for out
  proof -
    have "out = getitem_mask (satisfies_all df f) df" by (rule apply_filters_Inr [OF that])
    then show ?thesis using sat by simp
  qed
  have 2: "rows out = filter (\<lambda>r. in_closed_range lo hi (item df ''price_amount'' r) \<and>
                                   satisfies_all df (f\<lparr>price_range := None\<rparr>) r) (rows df)"
    if "exact_in_float64 df lo hi" and "apply_filters df f = Inr out" for out
  proof -
    have "filter (\<lambda>r. in_float64_range lo hi (item df ''price_amount'' r) \<and>
                      satisfies_all df (f\<lparr>price_range := None\<rparr>) r) (rows df) =
          filter (\<lambda>r. in_closed_range lo hi (item df ''price_amount'' r) \<and>
                      satisfies_all df (f\<lparr>price_range := None\<rparr>) r) (rows df)"
      by (rule filter_cong [OF refl]) (simp add: exact_in_float64_row [OF that(1)])
    with 1 [OF that(2)] show ?thesis by simp
  qed
  have 3: "\<exists>out. apply_filters df f = Inr out" if "applicable df f \<and> numeric_prices df"
    using that by (simp add: apply_filters_succeeds)
  from 1 2 3 range_filter_scenario show ?thesis by blast
qed

theorem range_filter_inclusive_witness:
  "price_range (no_filters\<lparr>price_range := Some (15, 30)\<rparr>) = Some (15, 30) \<and>
   ''price_amount'' \<in> set (columns scenario_table) \<and>
   exact_in_float64 scenario_table 15 30 \<and>
   (\<exists>out. apply_filters scenario_table (no_filters\<lparr>price_range := Some (15, 30)\<rparr>) = Inr out \<and>
      rows out = [[Str ''A'', Num 20], [Str ''B'', Num 30]])"
proof -
  let ?f = "no_filters\<lparr>price_range := Some (15, 30)\<rparr>"
  have a: "price_range ?f = Some (15, 30)" by simp
  have b: "''price_amount'' \<in> set (columns scenario_table)" by (simp add: scenario_table_def)
  have c: "applicable scenario_table ?f \<and> numeric_prices scenario_table"
    by (simp add: applicable_def column_present_def multi_present_def numeric_prices_def
        active_choice_def active_multi_def no_filters_def scenario_table_def item_def)
  have d: "exact_in_float64 scenario_table 15 30"
    by (simp add: exact_in_float64_def scenario_table_def item_def float64_def float64_pos_def)
  from range_filter_inclusive [OF a b] c d obtain out where
    out: "apply_filters scenario_table ?f = Inr out" and
    rs: "rows out = filter (\<lambda>r. in_closed_range 15 30 (item scenario_table ''price_amount'' r) \<and>
              satisfies_all scenario_table (?f\<lparr>price_range := None\<rparr>) r) (rows scenario_table)"
    by blast
  have "rows out = [[Str ''A'', Num 20], [Str ''B'', Num 30]]"
    unfolding rs
    by (simp add: scenario_table_def no_filters_def satisfies_all_def choice_ok_def multi_ok_def
        range_ok_def active_choice_def active_multi_def item_def)
  with a b d out show ?thesis by blast
qed

text \<open>
  The equations that evaluate \<open>apply_filters\<close> on a concrete table.
\<close>

lemmas eval_filters =
  apply_filters_def and_then_def single_choice_def multi_choice_def range_choice_def
  range_select_def eq_select_def isin_select_def active_choice_def active_multi_def
  getitem_mask_def item_def no_filters_def float64_def float64_pos_def

text \<open>
  Claim C3 as stated fails on integer prices beyond \<open>2^53\<close>: with the default range of the
  slider, whose upper end is the greatest price as a float, the row with the price
  \<open>9007199254740993\<close> is kept although the price exceeds the bound \<open>9007199254740992\<close>.
\<close>

theorem range_filter_rounding_counterexample:
  "price_bounds big_price_table = Some (1, 9007199254740992) \<and>
   apply_filters big_price_table (no_filters\<lparr>price_range := Some (1, 9007199254740992)\<rparr>) =
     Inr big_price_table \<and>
   \<not> in_closed_range 1 9007199254740992 (Num 9007199254740993) \<and>
   rows big_price_table \<noteq>
     filter (\<lambda>r. in_closed_range 1 9007199254740992 (item big_price_table ''price_amount'' r))
       (rows big_price_table)"
  by (simp add: price_bounds_def series_def big_price_table_def eval_filters eval_float64)

lemma apply_filters_eq:
  assumes "applicable df f" and "numeric_prices df"
  shows "apply_filters df f = Inr (getitem_mask (satisfies_all df f) df)"
  using apply_filters_succeeds [OF assms] apply_filters_Inr by blast

lemma getitem_mask_cong:
  "(\<And>r. r \<in> set (rows df) \<Longrightarrow> p r = q r) \<Longrightarrow> getitem_mask p df = getitem_mask q df"
  by (simp add: getitem_mask_def cong: filter_cong)

lemma all_or_absent_inactive: "all_or_absent sel \<Longrightarrow> active_choice sel = None"
  by (auto simp: all_or_absent_def active_choice_def)

lemma unconstrained_applicable: "unconstrained df f \<Longrightarrow> applicable df f"
  by (auto simp: unconstrained_def applicable_def column_present_def multi_present_def
      all_or_absent_inactive active_multi_def split: option.splits)

lemma Num_in_numbers: "Num x \<in> set cs \<Longrightarrow> x \<in> set (numbers cs)"
  by (induction cs rule: numbers.induct) auto

lemma spans_prices_row:
  assumes "spans_prices df (Some (lo, hi))" and "r \<in> set (rows df)"
    and "item df ''price_amount'' r = Num x"
  shows "lo \<le> x \<and> x \<le> hi"
proof -
  have "Num x \<in> set (series df ''price_amount'')"
    using assms(2,3) by (force simp: series_def)
  then have "x \<in> set (numbers (series df ''price_amount''))" by (rule Num_in_numbers)
  with assms(1) show ?thesis by (simp add: spans_prices_def list_all_iff)
qed

lemma numeric_prices_row:
  "numeric_prices df \<Longrightarrow> r \<in> set (rows df) \<Longrightarrow> \<not> is_Str (item df ''price_amount'' r)"
  by (auto simp: numeric_prices_def list_ex_iff)

lemma unconstrained_satisfies:
  assumes "unconstrained df f" and "r \<in> set (rows df)"
  shows "satisfies_all df f r \<longleftrightarrow>
         (price_range f \<noteq> None \<and> ''price_amount'' \<in> set (columns df) \<longrightarrow>
            (\<exists>x. item df ''price_amount'' r = Num x))"
proof -
  have c: "choice_ok df c sel r" if "all_or_absent sel" for c sel
    using that by (simp add: choice_ok_def all_or_absent_inactive)
  have m: "multi_ok df ''color'' (color f) r"
    using assms(1) by (auto simp: unconstrained_def multi_ok_def active_multi_def split: option.splits)
  have "range_ok df (price_range f) r \<longleftrightarrow>
         (price_range f \<noteq> None \<and> ''price_amount'' \<in> set (columns df) \<longrightarrow>
            (\<exists>x. item df ''price_amount'' r = Num x))"
  proof (cases "price_range f")
    case None
    then show ?thesis by (simp add: range_ok_def)
  next
    case (Some b)
    obtain lo hi where b: "b = (lo, hi)" by (cases b)
    have sp: "spans_prices df (Some (lo, hi))"
      using assms(1) Some b by (simp add: unconstrained_def)
    show ?thesis
    proof (cases "item df ''price_amount'' r")
      case (Num x)
      with spans_prices_row [OF sp assms(2) Num] show ?thesis
        by (simp add: range_ok_def Some b float64_mono)
    qed (simp_all add: range_ok_def Some b)
  qed
  with c m assms(1) show ?thesis by (simp add: satisfies_all_def unconstrained_def)
qed

text \<open>
  Claim C1, as amended. On a cleaned table (numeric prices), a filter set without constraint
  returns the rows of the input whose \<open>price_amount\<close> is not missing, in order, when the
  range filter is present and the table has the column, and the input itself otherwise. So
  the result equals the input whenever no price is missing.
\<close>

theorem unconstrained_filters_keep_priced_rows:
  assumes "unconstrained df f" and "numeric_prices df"
  shows "apply_filters df f =
           Inr (if price_range f \<noteq> None \<and> ''price_amount'' \<in> set (columns df)
                then getitem_mask (\<lambda>r. item df ''price_amount'' r \<noteq> NA) df else df) \<and>
         ((\<forall>r \<in> set (rows df). item df ''price_amount'' r \<noteq> NA) \<longrightarrow> apply_filters df f = Inr df)"
proof -
  have eq: "apply_filters df f = Inr (getitem_mask (satisfies_all df f) df)"
    by (rule apply_filters_eq [OF unconstrained_applicable [OF assms(1)] assms(2)])
  have num: "(\<exists>x. item df ''price_amount'' r = Num x) \<longleftrightarrow> item df ''price_amount'' r \<noteq> NA"
    if "r \<in> set (rows df)" for r
    using numeric_prices_row [OF assms(2) that] by (cases "item df ''price_amount'' r") simp_all
  have 1: "getitem_mask (satisfies_all df f) df =
      (if price_range f \<noteq> None \<and> ''price_amount'' \<in> set (columns df)
       then getitem_mask (\<lambda>r. item df ''price_amount'' r \<noteq> NA) df else df)"
  proof (cases "price_range f \<noteq> None \<and> ''price_amount'' \<in> set (columns df)")
    case True
    then show ?thesis
      using unconstrained_satisfies [OF assms(1)] num
      by (auto intro!: getitem_mask_cong)
  next
    case False
    have "getitem_mask (satisfies_all df f) df = getitem_mask (\<lambda>r. True) df"
      using unconstrained_satisfies [OF assms(1)] False by (intro getitem_mask_cong) auto
    then have "getitem_mask (satisfies_all df f) df = df" by simp
    with False show ?thesis by (simp only: if_False)
  qed
  have 2: "getitem_mask (\<lambda>r. item df ''price_amount'' r \<noteq> NA) df = df"
    if "\<forall>r \<in> set (rows df). item df ''price_amount'' r \<noteq> NA"
  proof -
    have "getitem_mask (\<lambda>r. item df ''price_amount'' r \<noteq> NA) df = getitem_mask (\<lambda>r. True) df"
      using that by (intro getitem_mask_cong) auto
    then show ?thesis by simp
  qed
  show ?thesis using eq 1 2 by auto
qed

theorem unconstrained_filters_keep_priced_rows_witness:
  "unconstrained gap_table gap_defaults \<and> numeric_prices gap_table \<and>
   apply_filters gap_table gap_defaults =
     Inr (gap_table\<lparr>rows := [[Str ''A'', Num 10], [Str ''B'', Num 30]]\<rparr>)"
  using unconstrained_filters_keep_priced_rows [of gap_table gap_defaults]
  by (simp add: unconstrained_def all_or_absent_def spans_prices_def numeric_prices_def
      series_def gap_table_def gap_defaults_def no_filters_def item_def getitem_mask_def)

text \<open>
  Claim C1 as stated fails: the second row of \<open>gap_table\<close> has no price and is dropped by
  the default filter set, whose range is the full range of the data.
\<close>

theorem unconstrained_filters_counterexample:
  "unconstrained gap_table gap_defaults \<and> numeric_prices gap_table \<and>
   price_bounds gap_table = Some (10, 30) \<and>
   apply_filters gap_table gap_defaults \<noteq> Inr gap_table"
  by (simp add: unconstrained_def all_or_absent_def spans_prices_def numeric_prices_def
      price_bounds_def series_def gap_table_def gap_defaults_def eval_filters)

text \<open>
  Claim C10. When the table has a \<open>price_amount\<close> column and the filter set holds a range
  filter, no row of the result has a missing \<open>price_amount\<close>, whatever the bounds are.
\<close>

theorem missing_price_excluded:
  assumes "''price_amount'' \<in> set (columns df)" and "price_range f = Some b"
    and "apply_filters df f = Inr out"
  shows "\<forall>r \<in> set (rows out). item out ''price_amount'' r \<noteq> NA"
proof -
  obtain lo hi where b: "b = (lo, hi)" by (cases b)
  have out: "out = getitem_mask (satisfies_all df f) df" by (rule apply_filters_Inr [OF assms(3)])
  have "item df ''price_amount'' r \<noteq> NA" if "satisfies_all df f r" for r
  proof -
    from that have "range_ok df (Some (lo, hi)) r" by (simp add: satisfies_all_def assms(2) b)
    then have "in_float64_range lo hi (item df ''price_amount'' r)"
      using assms(1) by (simp add: range_ok_Some)
    then show ?thesis by (cases "item df ''price_amount'' r") simp_all
  qed
  then show ?thesis by (simp add: out)
qed

theorem missing_price_excluded_witness:
  "''price_amount'' \<in> set (columns gap_table) \<and> price_range gap_defaults = Some (10, 30) \<and>
   (\<exists>out. apply_filters gap_table gap_defaults = Inr out \<and>
      rows out = [[Str ''A'', Num 10], [Str ''B'', Num 30]] \<and>
      NA \<notin> set (series out ''price_amount''))"
proof -
  have a: "''price_amount'' \<in> set (columns gap_table)" by (simp add: gap_table_def)
  have b: "price_range gap_defaults = Some (10, 30)" by (simp add: gap_defaults_def no_filters_def)
  have c: "apply_filters gap_table gap_defaults =
     Inr (gap_table\<lparr>rows := [[Str ''A'', Num 10], [Str ''B'', Num 30]]\<rparr>)"
    by (simp add: gap_table_def gap_defaults_def eval_filters)
  have "NA \<notin> set (series (gap_table\<lparr>rows := [[Str ''A'', Num 10], [Str ''B'', Num 30]]\<rparr>) ''price_amount'')"
    using missing_price_excluded [OF a b c] by (auto simp: series_def)
  with a b c show ?thesis by simp
qed













text \<open>
  Claim C4, as amended. With a selection \<open>vs\<close> for the \<open>color\<close> column: if \<open>"All"\<close> is among
  \<open>vs\<close>, or \<open>vs\<close> is empty, the filter imposes no constraint (the result is that of the
  filter set without the color filter); otherwise the result keeps exactly the rows whose
  color is a member of \<open>vs\<close> and which pass the other filters.
\<close>

theorem multi_choice_filter:
  assumes "color f = Some vs" and "''color'' \<in> set (columns df)"
  shows "(''All'' \<in> set vs \<or> vs = [] \<longrightarrow> apply_filters df f = apply_filters df (f\<lparr>color := None\<rparr>)) \<and>
         (''All'' \<notin> set vs \<and> vs \<noteq> [] \<longrightarrow>
            (\<forall>out. apply_filters df f = Inr out \<longrightarrow>
               rows out = filter (\<lambda>r. item df ''color'' r \<in> Str ` set vs \<and>
                                      satisfies_all df (f\<lparr>color := None\<rparr>) r) (rows df))) \<and>
         (applicable df f \<and> numeric_prices df \<longrightarrow> (\<exists>out. apply_filters df f = Inr out))"
proof (intro conjI impI allI)
  assume "''All'' \<in> set vs \<or> vs = []"
  then have "multi_choice ''color'' (color f) = multi_choice ''color'' None"
    using assms(1) by (auto simp: multi_choice_def active_multi_def fun_eq_iff)
  then show "apply_filters df f = apply_filters df (f\<lparr>color := None\<rparr>)"
    by (simp add: apply_filters_def)
next
  fix out assume act: "''All'' \<notin> set vs \<and> vs \<noteq> []" and a: "apply_filters df f = Inr out"
  have out: "out = getitem_mask (satisfies_all df f) df" by (rule apply_filters_Inr [OF a])
  have isin: "isin c vs \<longleftrightarrow> c \<in> Str ` set vs" for c by (cases c) auto
  have "satisfies_all df f = (\<lambda>r. item df ''color'' r \<in> Str ` set vs \<and>
                                      satisfies_all df (f\<lparr>color := None\<rparr>) r)"
    using assms(1) act
    by (auto simp: satisfies_all_def fun_eq_iff multi_ok_def active_multi_def isin)
  then show "rows out = filter (\<lambda>r. item df ''color'' r \<in> Str ` set vs \<and>
                                      satisfies_all df (f\<lparr>color := None\<rparr>) r) (rows df)"
    by (simp add: out)
next
  assume "applicable df f \<and> numeric_prices df"
  then show "\<exists>out. apply_filters df f = Inr out" by (simp add: apply_filters_succeeds)
qed

theorem multi_choice_filter_witness:
  "color (no_filters\<lparr>color := Some [''Blue'', ''Green'']\<rparr>) = Some [''Blue'', ''Green''] \<and>
   ''color'' \<in> set (columns color_table) \<and>
   (\<exists>out. apply_filters color_table (no_filters\<lparr>color := Some [''Blue'', ''Green'']\<rparr>) = Inr out \<and>
      rows out = [[Str ''Blue'']])"
proof -
  let ?f = "no_filters\<lparr>color := Some [''Blue'', ''Green'']\<rparr>"
  have a: "color ?f = Some [''Blue'', ''Green'']" by simp
  have b: "''color'' \<in> set (columns color_table)" by (simp add: color_table_def)
  have c: "applicable color_table ?f \<and> numeric_prices color_table"
    by (simp add: applicable_def column_present_def multi_present_def numeric_prices_def
        active_choice_def active_multi_def no_filters_def color_table_def item_def)
  have d: "''All'' \<notin> set [''Blue'', ''Green''] \<and> [''Blue'', ''Green''] \<noteq> ([] :: string list)"
    by simp
  from multi_choice_filter [OF a b] c d obtain out where
    out: "apply_filters color_table ?f = Inr out" and
    rs: "rows out = filter (\<lambda>r. item color_table ''color'' r \<in> Str ` set [''Blue'', ''Green''] \<and>
              satisfies_all color_table (?f\<lparr>color := None\<rparr>) r) (rows color_table)"
    by blast
  have "rows out = [[Str ''Blue'']]"
    unfolding rs
    by (simp add: color_table_def no_filters_def satisfies_all_def choice_ok_def multi_ok_def
        range_ok_def active_choice_def active_multi_def item_def)
  with a b out show ?thesis by blast
qed

text \<open>
  Claim C4 as stated fails on the empty selection: \<open>"All"\<close> is not among the selected values,
  yet every row is kept, although no color is a member of the empty set.
\<close>

theorem empty_selection_counterexample:
  "''All'' \<notin> set ([] :: string list) \<and>
   apply_filters color_table (no_filters\<lparr>color := Some []\<rparr>) = Inr color_table \<and>
   rows color_table \<noteq> filter (\<lambda>r. item color_table ''color'' r \<in> Str ` set []) (rows color_table)"
  by (simp add: color_table_def eval_filters)

section \<open>Properties of the loader, the summary and \<open>main\<close>\<close>

lemma length_map_entry [simp]: "length (map_entry c g ns vs) = length vs"
  by (induction c g ns vs rule: map_entry.induct) simp_all

lemma lookup_map_entry:
  "length vs = length ns \<Longrightarrow>
   lookup d ns (map_entry c g ns vs) k =
     (if k = c \<and> k \<in> set ns then g (lookup d ns vs k) else lookup d ns vs k)"
  by (induction ns vs rule: list_induct2') auto

lemma assign_column_simps [simp]:
  "columns (assign_column c g t df) = columns df"
  "rows (assign_column c g t df) = map (map_entry c g (columns df)) (rows df)"
  by (simp_all add: assign_column_def)

lemma rectangular_assign_column: "rectangular df \<Longrightarrow> rectangular (assign_column c g t df)"
  by (simp add: rectangular_def list_all_iff)

lemma item_assign_column:
  assumes "rectangular df" and "r \<in> set (rows df)"
  shows "item (assign_column c g t df) k (map_entry c g (columns df) r) =
         (if k = c \<and> k \<in> set (columns df) then g (item df k r) else item df k r)"
  using assms by (auto simp: item_def rectangular_def list_all_iff lookup_map_entry)

lemma fill_column_columns [simp]: "columns (fill_column c df) = columns df"
  by (simp add: fill_column_def)

lemma coerce_price_columns [simp]: "columns (coerce_price parse df) = columns df"
  by (simp add: coerce_price_def)

lemma rectangular_fill_column: "rectangular df \<Longrightarrow> rectangular (fill_column c df)"
  by (simp add: fill_column_def rectangular_assign_column)

lemma rectangular_coerce_price: "rectangular df \<Longrightarrow> rectangular (coerce_price parse df)"
  by (simp add: coerce_price_def rectangular_assign_column)

lemma fillna_not_NA [simp]: "fillna v x \<noteq> NA" "NA \<noteq> fillna v x"
  by (cases x; simp)+

lemma to_numeric_not_Str [simp]: "\<not> is_Str (to_numeric parse x)"
  by (cases x) (simp_all split: option.splits)

lemma series_assign_column:
  assumes "rectangular df"
  shows "series (assign_column c g t df) k =
         (if k = c \<and> c \<in> set (columns df) then map g (series df k) else series df k)"
proof -
  have "item (assign_column c g t df) k (map_entry c g (columns df) r) =
        (if k = c \<and> c \<in> set (columns df) then g (item df k r) else item df k r)"
    if "r \<in> set (rows df)" for r
    using item_assign_column [OF assms that, of c g t k] by auto
  then show ?thesis by (auto simp: series_def)
qed

lemma series_fill_column:
  assumes "rectangular df"
  shows "series (fill_column c df) k =
         (if k = c \<and> c \<in> set (columns df) then map (fillna ''Unknown'') (series df k)
          else series df k)"
  using assms unfolding fill_column_def by (auto simp: series_assign_column)

lemma series_coerce_price:
  assumes "rectangular df"
  shows "series (coerce_price parse df) k =
         (if k = ''price_amount'' \<and> k \<in> set (columns df) then map (to_numeric parse) (series df k)
          else series df k)"
  using assms unfolding coerce_price_def by (auto simp: series_assign_column)

lemma fill_column_fills:
  assumes "rectangular df" and "c \<in> set (columns df)"
  shows "NA \<notin> set (series (fill_column c df) c)"
  using assms by (auto simp: series_fill_column)

lemma fill_column_keeps_filled:
  assumes "rectangular df" and "NA \<notin> set (series df k)"
  shows "NA \<notin> set (series (fill_column c df) k)"
  using assms by (auto simp: series_fill_column)

lemma fillna_is_Str: "is_Str (fillna v x) \<longleftrightarrow> is_Str x \<or> x = NA"
  by (cases x) simp_all

lemma fill_column_keeps_numeric:
  assumes "rectangular df" and "\<not> list_ex is_Str (series df k)" and "c \<noteq> k"
  shows "\<not> list_ex is_Str (series (fill_column c df) k)"
  using assms by (auto simp: series_fill_column)

lemma fold_fill_columns [simp]: "columns (fold fill_column cs df) = columns df"
  by (induction cs arbitrary: df) simp_all

lemma rectangular_fold_fill: "rectangular df \<Longrightarrow> rectangular (fold fill_column cs df)"
  by (induction cs arbitrary: df) (simp_all add: rectangular_fill_column)

lemma fold_fill_keeps_filled:
  "rectangular df \<Longrightarrow> NA \<notin> set (series df k) \<Longrightarrow> NA \<notin> set (series (fold fill_column cs df) k)"
  by (induction cs arbitrary: df) (simp_all add: rectangular_fill_column fill_column_keeps_filled)

lemma fold_fill_fills:
  "rectangular df \<Longrightarrow> c \<in> set cs \<Longrightarrow> c \<in> set (columns df) \<Longrightarrow>
   NA \<notin> set (series (fold fill_column cs df) c)"
proof (induction cs arbitrary: df)
  case Nil
  then show ?case by simp
next
  case (Cons a cs)
  show ?case
  proof (cases "a = c")
    case True
    have "NA \<notin> set (series (fill_column c df) c)"
      by (rule fill_column_fills [OF Cons.prems(1,3)])
    then show ?thesis
      using True Cons.prems(1) by (simp add: fold_fill_keeps_filled rectangular_fill_column)
  next
    case False
    then show ?thesis
      using Cons by (simp add: rectangular_fill_column)
  qed
qed

lemma fold_fill_keeps_numeric:
  "rectangular df \<Longrightarrow> \<not> list_ex is_Str (series df k) \<Longrightarrow> k \<notin> set cs \<Longrightarrow>
   \<not> list_ex is_Str (series (fold fill_column cs df) k)"
proof (induction cs arbitrary: df)
  case Nil
  then show ?case by simp
next
  case (Cons a cs)
  then have "\<not> list_ex is_Str (series (fill_column a df) k)"
    by (intro fill_column_keeps_numeric) auto
  with Cons show ?case by (simp add: rectangular_fill_column)
qed

lemma coerce_price_numeric:
  assumes "rectangular df" and "''price_amount'' \<in> set (columns df)"
  shows "\<not> list_ex is_Str (series (coerce_price parse df) ''price_amount'')"
  using assms by (auto simp: series_coerce_price list_ex_iff)

lemma fillna_Unknown: "fillna ''Unknown'' = (\<lambda>v. if v = NA then Str ''Unknown'' else v)"
proof
  fix v show "fillna ''Unknown'' v = (if v = NA then Str ''Unknown'' else v)" by (cases v) simp_all
qed

lemma to_numeric_cases:
  "to_numeric parse =
     (\<lambda>v. case v of Str s \<Rightarrow> (case parse s of None \<Rightarrow> NA | Some x \<Rightarrow> Num x) | _ \<Rightarrow> v)"
proof
  fix v
  show "to_numeric parse v =
     (case v of Str s \<Rightarrow> (case parse s of None \<Rightarrow> NA | Some x \<Rightarrow> Num x) | _ \<Rightarrow> v)"
    by (cases v) simp_all
qed

lemma fillna_twice [simp]: "fillna u (fillna u v) = fillna u v"
  by (cases v) simp_all

lemma series_fold_fill:
  "rectangular df \<Longrightarrow>
   series (fold fill_column cs df) k =
     (if k \<in> set cs \<and> k \<in> set (columns df) then map (fillna ''Unknown'') (series df k)
      else series df k)"
proof (induction cs arbitrary: df)
  case Nil
  then show ?case by simp
next
  case (Cons a cs)
  have r: "rectangular (fill_column a df)" by (rule rectangular_fill_column [OF Cons.prems])
  show ?case
    using Cons.IH [OF r] by (auto simp: series_fill_column [OF Cons.prems])
qed

text \<open>
  Claim C2. When the upload parses, the loader returns a table in which each of the six
  columns \<open>brand_name\<close>, \<open>category_main\<close>, \<open>category_sub\<close>, \<open>color\<close>, \<open>price_point\<close> and
  \<open>availability\<close> that is present has no missing entry: it is the uploaded column with every
  missing entry replaced by \<open>"Unknown"\<close>. The \<open>price_amount\<close> column, if present, holds numbers
  and missing entries only, never a string: it is the uploaded column with every string
  replaced by the number it reads as, or by a missing entry.
\<close>

theorem loader_cleans:
  assumes "read_csv uploaded_file = Inr raw" and "rectangular raw"
  shows "\<exists>df. load_and_process_data read_csv parse uploaded_file = ([], Some df) \<and>
           columns df = columns raw \<and> length (rows df) = length (rows raw) \<and>
           (\<forall>c \<in> {''brand_name'', ''category_main'', ''category_sub'', ''color'', ''price_point'',
                   ''availability''}.
              c \<in> set (columns df) \<longrightarrow>
                NA \<notin> set (series df c) \<and>
                series df c = map (\<lambda>v. if v = NA then Str ''Unknown'' else v) (series raw c)) \<and>
           (''price_amount'' \<in> set (columns df) \<longrightarrow>
              \<not> list_ex is_Str (series df ''price_amount'') \<and>
              series df ''price_amount'' =
                map (\<lambda>v. case v of Str s \<Rightarrow> (case parse s of None \<Rightarrow> NA | Some x \<Rightarrow> Num x)
                         | _ \<Rightarrow> v) (series raw ''price_amount''))"
proof -
  let ?six = "{''brand_name'', ''category_main'', ''category_sub'', ''color'', ''price_point'',
               ''availability''}"
  let ?df = "fold fill_column categorical_cols (coerce_price parse raw)"
  have r: "rectangular (coerce_price parse raw)"
    by (rule rectangular_coerce_price [OF assms(2)])
  have 1: "load_and_process_data read_csv parse uploaded_file = ([], Some ?df)"
    by (simp add: load_and_process_data_def assms(1))
  have s: "series ?df k =
      (if k \<in> set categorical_cols \<and> k \<in> set (columns raw)
       then map (fillna ''Unknown'') (series (coerce_price parse raw) k)
       else series (coerce_price parse raw) k)" for k
    using series_fold_fill [OF r, of categorical_cols k] by simp
  have 2: "NA \<notin> set (series ?df c) \<and>
           series ?df c = map (\<lambda>v. if v = NA then Str ''Unknown'' else v) (series raw c)"
    if "c \<in> ?six" "c \<in> set (columns ?df)" for c
  proof -
    have c: "c \<in> set categorical_cols" "c \<noteq> ''price_amount''"
      using that(1) by (auto simp: categorical_cols_def)
    have "series ?df c = map (fillna ''Unknown'') (series raw c)"
      using c that(2) by (simp add: s series_coerce_price [OF assms(2)])
    then show ?thesis by (auto simp: fillna_Unknown)
  qed
  have 3: "\<not> list_ex is_Str (series ?df ''price_amount'') \<and>
           series ?df ''price_amount'' =
             map (\<lambda>v. case v of Str s \<Rightarrow> (case parse s of None \<Rightarrow> NA | Some x \<Rightarrow> Num x)
                      | _ \<Rightarrow> v) (series raw ''price_amount'')"
    if "''price_amount'' \<in> set (columns ?df)"
  proof -
    have "''price_amount'' \<notin> set categorical_cols" by (simp add: categorical_cols_def)
    then have "series ?df ''price_amount'' = map (to_numeric parse) (series raw ''price_amount'')"
      using that by (simp add: s series_coerce_price [OF assms(2)])
    then show ?thesis by (auto simp: list_ex_iff to_numeric_cases [symmetric])
  qed
  have 4: "length (rows ?df) = length (rows raw)"
  proof -
    have "length (rows (fold fill_column cs d)) = length (rows d)" for cs d
      by (induction cs arbitrary: d) (simp_all add: fill_column_def)
    then show ?thesis by (simp add: coerce_price_def)
  qed
  have 5: "columns ?df = columns raw" by simp
  from 1 2 3 4 5 show ?thesis by blast
qed

theorem loader_cleans_witness:
  "rectangular messy_upload \<and>
   (\<exists>df. load_and_process_data (\<lambda>u :: unit. Inr messy_upload) parse_digits () = ([], Some df) \<and>
      series df ''brand_name'' = [Str ''A'', Str ''Unknown'', Str ''B''] \<and>
      series df ''color'' = [Str ''Unknown'', Str ''Unknown'', Str ''Unknown''] \<and>
      series df ''price_amount'' = [Num 12, NA, NA] \<and>
      NA \<notin> set (series df ''brand_name'') \<and>
      NA \<notin> set (series df ''color'') \<and>
      \<not> list_ex is_Str (series df ''price_amount''))"
proof -
  have r: "rectangular messy_upload" by (simp add: rectangular_def messy_upload_def)
  from loader_cleans [of "\<lambda>u :: unit. Inr messy_upload" "()" messy_upload parse_digits, OF refl r]
  obtain df where all:
    "load_and_process_data (\<lambda>u :: unit. Inr messy_upload) parse_digits () = ([], Some df) \<and>
     columns df = columns messy_upload \<and> length (rows df) = length (rows messy_upload) \<and>
     (\<forall>c \<in> {''brand_name'', ''category_main'', ''category_sub'', ''color'', ''price_point'',
             ''availability''}.
        c \<in> set (columns df) \<longrightarrow>
          NA \<notin> set (series df c) \<and>
          series df c = map (\<lambda>v. if v = NA then Str ''Unknown'' else v) (series messy_upload c)) \<and>
     (''price_amount'' \<in> set (columns df) \<longrightarrow>
        \<not> list_ex is_Str (series df ''price_amount'') \<and>
        series df ''price_amount'' =
          map (\<lambda>v. case v of Str s \<Rightarrow> (case parse_digits s of None \<Rightarrow> NA | Some x \<Rightarrow> Num x)
                   | _ \<Rightarrow> v) (series messy_upload ''price_amount''))" ..
  note l = all [THEN conjunct1]
  note c = all [THEN conjunct2, THEN conjunct1]
  note f = all [THEN conjunct2, THEN conjunct2, THEN conjunct2, THEN conjunct1]
  note n = all [THEN conjunct2, THEN conjunct2, THEN conjunct2, THEN conjunct2]
  have cols: "columns df = [''brand_name'', ''price_amount'', ''color'']"
    using c by (simp add: messy_upload_def)
  have mb: "''brand_name'' \<in> {''brand_name'', ''category_main'', ''category_sub'', ''color'',
          ''price_point'', ''availability''}" by simp
  have cb: "''brand_name'' \<in> set (columns df)" by (simp add: cols)
  note b = bspec [OF f mb, THEN mp, OF cb, THEN conjunct1]
  note b' = bspec [OF f mb, THEN mp, OF cb, THEN conjunct2]
  have mk: "''color'' \<in> {''brand_name'', ''category_main'', ''category_sub'', ''color'',
          ''price_point'', ''availability''}" by simp
  have ck: "''color'' \<in> set (columns df)" by (simp add: cols)
  note k = bspec [OF f mk, THEN mp, OF ck, THEN conjunct1]
  note k' = bspec [OF f mk, THEN mp, OF ck, THEN conjunct2]
  have cp: "''price_amount'' \<in> set (columns df)" by (simp add: cols)
  note p = n [THEN mp, OF cp, THEN conjunct1]
  note p' = n [THEN mp, OF cp, THEN conjunct2]
  have 1: "series df ''brand_name'' = [Str ''A'', Str ''Unknown'', Str ''B'']"
    unfolding b' by (simp add: series_def item_def messy_upload_def)
  have 2: "series df ''color'' = [Str ''Unknown'', Str ''Unknown'', Str ''Unknown'']"
    unfolding k' by (simp add: series_def item_def messy_upload_def)
  have 3: "series df ''price_amount'' = [Num 12, NA, NA]"
    unfolding p' by (simp add: series_def item_def messy_upload_def parse_digits_def)
  show ?thesis
  proof (intro conjI exI [of _ df])
    show "rectangular messy_upload" by (rule r)
    show "load_and_process_data (\<lambda>u :: unit. Inr messy_upload) parse_digits () = ([], Some df)"
      by (rule l)
    show "series df ''brand_name'' = [Str ''A'', Str ''Unknown'', Str ''B'']" by (rule 1)
    show "series df ''color'' = [Str ''Unknown'', Str ''Unknown'', Str ''Unknown'']" by (rule 2)
    show "series df ''price_amount'' = [Num 12, NA, NA]" by (rule 3)
    show "NA \<notin> set (series df ''brand_name'')" by (rule b)
    show "NA \<notin> set (series df ''color'')" by (rule k)
    show "\<not> list_ex is_Str (series df ''price_amount'')" by (rule p)
  qed
qed

text \<open>
  Claim C8. When \<open>pd.read_csv\<close> raises, the loader shows the error and returns \<open>None\<close>, and
  \<open>main\<close> shows nothing after the error: no filter, metric, chart or data table is computed.
\<close>

theorem load_error_stops_pipeline:
  assumes "read_csv uploaded_file = Inl msg"
  shows "load_and_process_data read_csv parse uploaded_file =
           ([Error_message (''Error loading data: '' @ msg)], None) \<and>
         main read_csv parse create_filters (Some uploaded_file) =
           [Title, Error_message (''Error loading data: '' @ msg)]"
  using assms by (simp add: load_and_process_data_def main_def)

theorem load_error_stops_pipeline_witness:
  "load_and_process_data (\<lambda>u :: unit. Inl ''No columns to parse from file'') parse_digits () =
     ([Error_message ''Error loading data: No columns to parse from file''], None) \<and>
   main (\<lambda>u :: unit. Inl ''No columns to parse from file'') parse_digits
     (\<lambda>df. Inr no_filters) (Some ()) =
     [Title, Error_message ''Error loading data: No columns to parse from file'']"
  using load_error_stops_pipeline [of "\<lambda>u :: unit. Inl ''No columns to parse from file''" "()"
      "''No columns to parse from file''" parse_digits "\<lambda>df. Inr no_filters"]
  by simp

text \<open>
  Claim C6, as amended. Without a \<open>price_amount\<close> column the summary shows no mean-price
  metric at all, and computing it raises no exception when the table has no \<open>availability\<close>
  column, or has one that is an object column holding a string or no value at all. The
  metric reads \<open>"N/A"\<close> when the \<open>price_amount\<close> column is present and holds no number.
\<close>

theorem summary_mean_price_metric:
  "(''price_amount'' \<notin> set (columns df) \<longrightarrow>
      (\<forall>v. Metric ''Average Price'' v \<notin> set (fst (create_overview_metrics df))) \<and>
      (''availability'' \<notin> set (columns df) \<or>
       dtype_of df ''availability'' = Object \<and>
         (list_ex is_Str (series df ''availability'') \<or>
          numbers (series df ''availability'') = []) \<longrightarrow>
         snd (create_overview_metrics df) = None)) \<and>
   (''price_amount'' \<in> set (columns df) \<and> \<not> list_ex is_Str (series df ''price_amount'') \<and>
    numbers (series df ''price_amount'') = [] \<longrightarrow>
      Metric ''Average Price'' Not_available \<in> set (fst (create_overview_metrics df)))"
  by (auto simp: create_overview_metrics_def str_accessor_raises_def Let_def mean_def)

theorem summary_mean_price_metric_witness:
  "''price_amount'' \<notin> set (columns stocked_table) \<and>
   dtype_of stocked_table ''availability'' = Object \<and>
   list_ex is_Str (series stocked_table ''availability'') \<and>
   create_overview_metrics stocked_table =
     ([Metric ''Total Products'' (Count 2), Metric ''Unique Brands'' (Count 2),
       Metric ''In Stock'' (Count 1)], None) \<and>
   ''price_amount'' \<in> set (columns unpriced_table) \<and>
   Metric ''Average Price'' Not_available \<in> set (fst (create_overview_metrics unpriced_table))"
proof -
  have a: "''price_amount'' \<notin> set (columns stocked_table)" by (simp add: stocked_table_def)
  have b: "''price_amount'' \<in> set (columns unpriced_table) \<and>
           \<not> list_ex is_Str (series unpriced_table ''price_amount'') \<and>
           numbers (series unpriced_table ''price_amount'') = []"
    by (simp add: unpriced_table_def series_def item_def)
  have c: "dtype_of stocked_table ''availability'' = Object \<and>
           list_ex is_Str (series stocked_table ''availability'')"
    by (simp add: stocked_table_def dtype_of_def series_def item_def)
  have d: "fst (create_overview_metrics stocked_table) =
     [Metric ''Total Products'' (Count 2), Metric ''Unique Brands'' (Count 2),
      Metric ''In Stock'' (Count 1)]"
    by (simp add: create_overview_metrics_def str_accessor_raises_def stocked_table_def
        dtype_of_def series_def item_def nunique_def lower_char_def)
  from summary_mean_price_metric [of stocked_table] a c
  have "snd (create_overview_metrics stocked_table) = None" by blast
  with d have e: "create_overview_metrics stocked_table =
     ([Metric ''Total Products'' (Count 2), Metric ''Unique Brands'' (Count 2),
       Metric ''In Stock'' (Count 1)], None)"
    by (simp add: prod_eq_iff)
  from summary_mean_price_metric [of unpriced_table] b
  have "Metric ''Average Price'' Not_available \<in> set (fst (create_overview_metrics unpriced_table))"
    by blast
  with a b c e show ?thesis by blast
qed

text \<open>
  Claim C6 as stated fails twice. On a table without \<open>price_amount\<close> the summary shows no
  mean-price metric, so none reads \<open>"N/A"\<close>. And on a table without \<open>price_amount\<close> whose
  \<open>availability\<close> column holds numbers, whether as a numeric column or as what a filter left
  of an object column, the \<open>.str\<close> accessor raises \<open>AttributeError\<close>.
\<close>

theorem summary_without_price_counterexample:
  "''price_amount'' \<notin> set (columns color_table) \<and>
   create_overview_metrics color_table = ([Metric ''Total Products'' (Count 2)], None) \<and>
   Metric ''Average Price'' Not_available \<notin> set (fst (create_overview_metrics color_table)) \<and>
   ''price_amount'' \<notin> set (columns stock_code_table) \<and>
   create_overview_metrics stock_code_table =
     ([Metric ''Total Products'' (Count 2)], Some AttributeError) \<and>
   create_overview_metrics (stock_code_table\<lparr>dtypes := [Object]\<rparr>) =
     ([Metric ''Total Products'' (Count 2)], Some AttributeError)"
  by (simp add: create_overview_metrics_def str_accessor_raises_def color_table_def
      stock_code_table_def dtype_of_def series_def item_def)

section \<open>Properties of the cross-tabulation\<close>

lemma sum_list_counts:
  assumes "distinct as" and "distinct bs" and "set ps \<subseteq> set as \<times> set bs"
  shows "sum_list (map sum_list (map (\<lambda>a. map (\<lambda>b. count_list ps (a, b)) bs) as)) = length ps"
proof -
  have "sum_list (map sum_list (map (\<lambda>a. map (\<lambda>b. count_list ps (a, b)) bs) as)) =
        (\<Sum>a\<in>set as. \<Sum>b\<in>set bs. count_list ps (a, b))"
    using assms(1,2) by (simp add: sum_list_distinct_conv_sum_set comp_def)
  also have "\<dots> = sum (count_list ps) (set as \<times> set bs)"
    by (simp add: sum.cartesian_product)
  also have "\<dots> = length ps"
    using assms(3) by (intro sum_count_set) simp_all
  finally show ?thesis .
qed

lemma cell_total_crosstab:
  "cell_total (crosstab xs ys) = length (filter (\<lambda>(a, b). a \<noteq> NA \<and> b \<noteq> NA) (zip xs ys))"
proof -
  let ?ps = "filter (\<lambda>(a, b). a \<noteq> NA \<and> b \<noteq> NA) (zip xs ys)"
  let ?as = "sort_key label_key (remdups (map fst ?ps))"
  let ?bs = "sort_key label_key (remdups (map snd ?ps))"
  have "set ?ps \<subseteq> set ?as \<times> set ?bs" by force
  then have "sum_list (map sum_list (map (\<lambda>a. map (\<lambda>b. count_list ?ps (a, b)) ?bs) ?as)) =
             length ?ps"
    by (intro sum_list_counts) simp_all
  then show ?thesis by (simp add: cell_total_def crosstab_def Let_def)
qed

lemma zip_series:
  "zip (series df c) (series df k) = map (\<lambda>r. (item df c r, item df k r)) (rows df)"
  by (simp add: series_def zip_map_map) (simp add: zip_same_conv_map)

text \<open>
  Claim C7. For a table with \<open>category_main\<close> and \<open>price_point\<close> columns, the sum over all cells
  of the cross-tabulation is the number of rows in which neither value is missing.
\<close>

theorem crosstab_total:
  assumes "''category_main'' \<in> set (columns df)" and "''price_point'' \<in> set (columns df)"
  shows "\<exists>ct. category_price_data df = Some ct \<and>
           cell_total ct =
             length (filter (\<lambda>r. item df ''category_main'' r \<noteq> NA \<and>
                                 item df ''price_point'' r \<noteq> NA) (rows df))"
  using assms
  by (simp add: category_price_data_def cell_total_crosstab zip_series filter_map comp_def)

theorem crosstab_total_witness:
  "''category_main'' \<in> set (columns catalog_table) \<and>
   ''price_point'' \<in> set (columns catalog_table) \<and>
   (\<exists>ct. category_price_data catalog_table = Some ct \<and> cell_total ct = 3)"
proof -
  have a: "''category_main'' \<in> set (columns catalog_table)"
    and b: "''price_point'' \<in> set (columns catalog_table)"
    by (simp_all add: catalog_table_def)
  have "length (filter (\<lambda>r. item catalog_table ''category_main'' r \<noteq> NA \<and>
                            item catalog_table ''price_point'' r \<noteq> NA) (rows catalog_table)) = 3"
    by (simp add: catalog_table_def item_def)
  with crosstab_total [OF a b] a b show ?thesis by simp
qed

section \<open>\<open>apply_filters\<close> leaves its argument alone\<close>

lemma extends_refl [simp]: "extends h h"
  by (simp add: extends_def)

lemma extends_trans: "extends h1 h2 \<Longrightarrow> extends h2 h3 \<Longrightarrow> extends h1 h3"
  by (auto simp: extends_def)

lemma refinesI:
  assumes "\<And>p h r h'. p < next_ref h \<Longrightarrow> m p h = (r, h') \<Longrightarrow>
      extends h h' \<and>
      (case r of Inl e \<Rightarrow> s (objects h p) = Inl e
       | Inr q \<Rightarrow> p \<le> q \<and> q < next_ref h' \<and> s (objects h p) = Inr (objects h' q))"
  shows "refines m s"
  using assms unfolding refines_def by blast

lemma refinesD:
  assumes "refines m s" and "p < next_ref h" and "m p h = (r, h')"
  shows "extends h h'"
    and "\<And>e. r = Inl e \<Longrightarrow> s (objects h p) = Inl e"
    and "\<And>q. r = Inr q \<Longrightarrow> p \<le> q \<and> q < next_ref h' \<and> s (objects h p) = Inr (objects h' q)"
  using assms unfolding refines_def by (force split: sum.splits)+

lemma refines_skip: "refines (\<lambda>p h. (Inr p, h)) Inr"
  by (rule refinesI) auto

lemma refines_index: "refines (index_h select) select"
  by (rule refinesI) (auto simp: index_h_def alloc_def extends_def split: sum.splits)

lemma refines_copy: "refines copy_h Inr"
  by (rule refinesI) (auto simp: copy_h_def alloc_def extends_def)

lemma refines_single_choice: "refines (single_choice_h c sel) (single_choice c sel)"
proof (cases "active_choice sel")
  case None
  then have "single_choice_h c sel = (\<lambda>p h. (Inr p, h))" "single_choice c sel = Inr"
    by (simp_all add: single_choice_h_def single_choice_def fun_eq_iff)
  then show ?thesis by (simp add: refines_skip)
next
  case (Some v)
  then have "single_choice_h c sel = index_h (eq_select c v)" "single_choice c sel = eq_select c v"
    by (simp_all add: single_choice_h_def single_choice_def fun_eq_iff)
  then show ?thesis by (simp add: refines_index)
qed

lemma refines_multi_choice: "refines (multi_choice_h c sel) (multi_choice c sel)"
proof (cases "active_multi sel")
  case None
  then have "multi_choice_h c sel = (\<lambda>p h. (Inr p, h))" "multi_choice c sel = Inr"
    by (simp_all add: multi_choice_h_def multi_choice_def fun_eq_iff)
  then show ?thesis by (simp add: refines_skip)
next
  case (Some vs)
  then have "multi_choice_h c sel = index_h (isin_select c vs)" "multi_choice c sel = isin_select c vs"
    by (simp_all add: multi_choice_h_def multi_choice_def fun_eq_iff)
  then show ?thesis by (simp add: refines_index)
qed

lemma refines_range_choice: "refines (range_choice_h sel) (range_choice sel)"
proof (rule refinesI)
  fix p h r h'
  assume p: "p < next_ref h" and m: "range_choice_h sel p h = (r, h')"
  show "extends h h' \<and>
      (case r of Inl e \<Rightarrow> range_choice sel (objects h p) = Inl e
       | Inr q \<Rightarrow> p \<le> q \<and> q < next_ref h' \<and> range_choice sel (objects h p) = Inr (objects h' q))"
  proof (cases "\<exists>lo hi. sel = Some (lo, hi) \<and> ''price_amount'' \<in> set (columns (objects h p))")
    case True
    then obtain lo hi where s: "sel = Some (lo, hi)"
      and c: "''price_amount'' \<in> set (columns (objects h p))" by blast
    have 1: "index_h (range_select lo hi) p h = (r, h')"
      using m s c by (simp add: range_choice_h_def)
    have 2: "range_choice sel (objects h p) = range_select lo hi (objects h p)"
      using s c by (simp add: range_choice_def)
    from refinesD [OF refines_index p 1] show ?thesis
      unfolding 2 by (cases r) auto
  next
    case False
    then have "r = Inr p" "h' = h" "range_choice sel (objects h p) = Inr (objects h p)"
      using m by (auto simp: range_choice_h_def range_choice_def split: option.splits if_splits)
    with p show ?thesis by simp
  qed
qed

lemma refines_bind:
  assumes "refines m1 s1" and "refines m2 s2"
  shows "refines (\<lambda>p. bind_h (m1 p) m2) (\<lambda>d. and_then (s1 d) s2)"
proof (rule refinesI)
  fix p h r h'
  assume p: "p < next_ref h" and m: "bind_h (m1 p) m2 h = (r, h')"
  obtain r1 h1 where m1: "m1 p h = (r1, h1)" by (cases "m1 p h")
  note d1 = refinesD [OF assms(1) p m1]
  show "extends h h' \<and>
      (case r of Inl e \<Rightarrow> and_then (s1 (objects h p)) s2 = Inl e
       | Inr q \<Rightarrow> p \<le> q \<and> q < next_ref h' \<and> and_then (s1 (objects h p)) s2 = Inr (objects h' q))"
  proof (cases r1)
    case (Inl e)
    then have "r = Inl e" "h' = h1" using m m1 by (simp_all add: bind_h_def)
    with d1(1) d1(2) [OF Inl] show ?thesis by (simp add: and_then_def)
  next
    case (Inr q1)
    from d1(3) [OF Inr] have q1: "p \<le> q1" "q1 < next_ref h1"
      and s1: "s1 (objects h p) = Inr (objects h1 q1)" by simp_all
    have m2: "m2 q1 h1 = (r, h')" using m m1 Inr by (simp add: bind_h_def)
    note d2 = refinesD [OF assms(2) q1(2) m2]
    have e: "extends h h'" by (rule extends_trans [OF d1(1) d2(1)])
    show ?thesis
    proof (cases r)
      case (Inl e')
      with d2(2) [OF Inl] e s1 show ?thesis by (simp add: and_then_def)
    next
      case (Inr q)
      with d2(3) [OF Inr] e s1 q1 show ?thesis by (simp add: and_then_def)
    qed
  qed
qed

lemmas refines_filter_steps =
  refines_bind [OF refines_single_choice
  refines_bind [OF refines_single_choice
  refines_bind [OF refines_single_choice
  refines_bind [OF refines_range_choice
  refines_bind [OF refines_single_choice
  refines_bind [OF refines_multi_choice refines_single_choice]]]]]]

lemma refines_apply_filters: "refines (\<lambda>df. apply_filters_h df f) (\<lambda>d. apply_filters d f)"
proof -
  have "refines (\<lambda>df. apply_filters_h df f)
     (\<lambda>d. and_then (Inr d) (\<lambda>d0.
       and_then (single_choice ''brand_name'' (brand f) d0) (\<lambda>d1.
       and_then (single_choice ''category_main'' (category_main f) d1) (\<lambda>d2.
       and_then (single_choice ''category_sub'' (category_sub f) d2) (\<lambda>d3.
       and_then (range_choice (price_range f) d3) (\<lambda>d4.
       and_then (single_choice ''price_point'' (price_point f) d4) (\<lambda>d5.
       and_then (multi_choice ''color'' (color f) d5) (\<lambda>d6.
       single_choice ''availability'' (availability f) d6))))))))"
    unfolding apply_filters_h_def
    by (rule refines_bind [OF refines_copy refines_filter_steps])
  also have "(\<lambda>d. and_then (Inr d) (\<lambda>d0.
       and_then (single_choice ''brand_name'' (brand f) d0) (\<lambda>d1.
       and_then (single_choice ''category_main'' (category_main f) d1) (\<lambda>d2.
       and_then (single_choice ''category_sub'' (category_sub f) d2) (\<lambda>d3.
       and_then (range_choice (price_range f) d3) (\<lambda>d4.
       and_then (single_choice ''price_point'' (price_point f) d4) (\<lambda>d5.
       and_then (multi_choice ''color'' (color f) d5) (\<lambda>d6.
       single_choice ''availability'' (availability f) d6)))))))) = (\<lambda>d. apply_filters d f)"
    by (simp add: apply_filters_def and_then_def)
  finally show ?thesis .
qed

lemma bind_h_copy:
  "bind_h (copy_h p) k h =
     k (next_ref h) (h\<lparr>objects := (objects h)(next_ref h := objects h p), next_ref := Suc (next_ref h)\<rparr>)"
  by (simp add: bind_h_def copy_h_def alloc_def)

lemma fresh_after_copy:
  assumes "refines m s" and "bind_h (copy_h p) m h = (Inr q, h')"
  shows "next_ref h \<le> q"
proof -
  let ?h0 = "h\<lparr>objects := (objects h)(next_ref h := objects h p), next_ref := Suc (next_ref h)\<rparr>"
  have 1: "m (next_ref h) ?h0 = (Inr q, h')"
    using assms(2) by (simp only: bind_h_copy)
  have 2: "next_ref h < next_ref ?h0" by simp
  from refinesD(3) [OF assms(1) 2 1 refl] show ?thesis by simp
qed

lemma apply_filters_h_fresh:
  assumes "apply_filters_h df f h = (Inr q, h')"
  shows "next_ref h \<le> q"
  by (rule fresh_after_copy [OF refines_filter_steps assms [unfolded apply_filters_h_def]])

text \<open>
  Claim C9. After \<open>apply_filters(df, filters)\<close> the object \<open>df\<close> holds the table it held before
  the call, and so does every other object that existed; a returned reference is a new
  object, different from \<open>df\<close>, and holds the filtered table.
\<close>

theorem apply_filters_leaves_input:
  assumes "df < next_ref h" and "apply_filters_h df f h = (r, h')"
  shows "objects h' df = objects h df \<and>
         (\<forall>p < next_ref h. objects h' p = objects h p) \<and>
         (\<forall>q. r = Inr q \<longrightarrow>
            q \<noteq> df \<and> next_ref h \<le> q \<and> apply_filters (objects h df) f = Inr (objects h' q)) \<and>
         (\<forall>e. r = Inl e \<longrightarrow> apply_filters (objects h df) f = Inl e)"
proof -
  note d = refinesD [OF refines_apply_filters assms]
  have 1: "\<forall>p < next_ref h. objects h' p = objects h p"
    using d(1) by (simp add: extends_def)
  have 2: "q \<noteq> df \<and> next_ref h \<le> q \<and> apply_filters (objects h df) f = Inr (objects h' q)"
    if "r = Inr q" for q
  proof -
    have "apply_filters_h df f h = (Inr q, h')" using assms(2) that by simp
    then have "next_ref h \<le> q" by (rule apply_filters_h_fresh)
    with d(3) [OF that] assms(1) show ?thesis by simp
  qed
  from 1 2 d(2) assms(1) show ?thesis by blast
qed

theorem apply_filters_leaves_input_witness:
  "0 < next_ref one_table_heap \<and>
   fst (apply_filters_h 0 (no_filters\<lparr>price_range := Some (15, 30)\<rparr>) one_table_heap) = Inr 2 \<and>
   objects (snd (apply_filters_h 0 (no_filters\<lparr>price_range := Some (15, 30)\<rparr>) one_table_heap)) 0 =
     scenario_table \<and>
   rows (objects (snd (apply_filters_h 0 (no_filters\<lparr>price_range := Some (15, 30)\<rparr>) one_table_heap)) 2) =
     [[Str ''A'', Num 20], [Str ''B'', Num 30]]"
proof -
  let ?f = "no_filters\<lparr>price_range := Some (15, 30)\<rparr>"
  have a: "0 < next_ref one_table_heap" by (simp add: one_table_heap_def)
  have b: "fst (apply_filters_h 0 ?f one_table_heap) = Inr 2"
    by (simp add: apply_filters_h_def bind_h_def copy_h_def alloc_def single_choice_h_def
        multi_choice_h_def range_choice_h_def index_h_def range_select_def active_choice_def
        active_multi_def no_filters_def one_table_heap_def scenario_table_def item_def
        getitem_mask_def)
  have c: "apply_filters_h 0 ?f one_table_heap =
      (Inr 2, snd (apply_filters_h 0 ?f one_table_heap))"
    using b by (simp add: prod_eq_iff)
  have o: "objects one_table_heap 0 = scenario_table" by (simp add: one_table_heap_def)
  from apply_filters_leaves_input [OF a c]
  have "objects (snd (apply_filters_h 0 ?f one_table_heap)) 0 = scenario_table"
    and "apply_filters scenario_table ?f =
         Inr (objects (snd (apply_filters_h 0 ?f one_table_heap)) 2)"
    by (simp_all add: o)
  with a b range_filter_scenario show ?thesis by simp
qed

end
